theory Spec2Isabelle
  imports Complex_Main
begin

section \<open>Python values used by the question corpus code\<close>

text \<open>
  Strings are lists of characters; a character stands for a code point below 256.
  The classification of characters follows Python's \<^verbatim>\<open>str\<close> type on that range.
\<close>

datatype py_error =
    FileNotFoundError
  | JSONDecodeError
  | ValueError
  | TypeError
  | AttributeError
  | KeyError
  | IndexError
  | RetrievalBackendError

definition LF :: char where
  "LF = CHR 0x0A"

definition CR :: char where
  "CR = CHR 0x0D"

text \<open>The characters removed by \<^verbatim>\<open>str.strip()\<close> without argument.\<close>

definition is_space :: "char \<Rightarrow> bool" where
  "is_space c = (c \<in> set [CHR 0x09, CHR 0x0A, CHR 0x0B, CHR 0x0C, CHR 0x0D,
      CHR 0x1C, CHR 0x1D, CHR 0x1E, CHR 0x1F, CHR 0x20, CHR 0x85, CHR 0xA0])"

text \<open>The line boundaries of \<^verbatim>\<open>str.splitlines()\<close>.\<close>

definition is_linebreak :: "char \<Rightarrow> bool" where
  "is_linebreak c = (c \<in> set [CHR 0x0A, CHR 0x0D, CHR 0x0B, CHR 0x0C,
      CHR 0x1C, CHR 0x1D, CHR 0x1E, CHR 0x85])"

definition py_lstrip :: "string \<Rightarrow> string" where
  "py_lstrip s = dropWhile is_space s"

definition py_rstrip :: "string \<Rightarrow> string" where
  "py_rstrip s = rev (dropWhile is_space (rev s))"

definition py_strip :: "string \<Rightarrow> string" where
  "py_strip s = py_rstrip (py_lstrip s)"

text \<open>\<^verbatim>\<open>s.rstrip(chars)\<close>: drop trailing characters that occur in \<open>chars\<close>.\<close>

definition py_rstrip_chars :: "string \<Rightarrow> string \<Rightarrow> string" where
  "py_rstrip_chars chars s = rev (dropWhile (\<lambda>c. c \<in> set chars) (rev s))"

definition py_startswith :: "string \<Rightarrow> string \<Rightarrow> bool" where
  "py_startswith s p = (take (length p) s = p)"

text \<open>\<^verbatim>\<open>sep.join(parts)\<close>.\<close>

fun py_join :: "string \<Rightarrow> string list \<Rightarrow> string" where
  "py_join sep [] = []"
| "py_join sep [x] = x"
| "py_join sep (x # y # ys) = x @ sep @ py_join sep (y # ys)"

text \<open>
  \<^verbatim>\<open>s.splitlines()\<close>: a carriage return followed by a line feed is one boundary, and a
  boundary at the very end opens no further line.
\<close>

fun py_splitlines :: "string \<Rightarrow> string list" where
  "py_splitlines [] = []"
| "py_splitlines (c # cs) =
     (if is_linebreak c then
        (case cs of
           d # ds \<Rightarrow> if c = CR \<and> d = LF then [] # py_splitlines ds else [] # py_splitlines cs
         | [] \<Rightarrow> [[]])
      else
        (case py_splitlines cs of
           [] \<Rightarrow> [[c]]
         | l # ls \<Rightarrow> (c # l) # ls))"

text \<open>\<^verbatim>\<open>s.split(sep)\<close> for a separator of one character.\<close>

fun py_split :: "char \<Rightarrow> string \<Rightarrow> string list" where
  "py_split sep [] = [[]]"
| "py_split sep (c # cs) =
     (if c = sep then [] # py_split sep cs
      else (case py_split sep cs of
              [] \<Rightarrow> [[c]]
            | l # ls \<Rightarrow> (c # l) # ls))"

text \<open>\<^verbatim>\<open>xs[i]\<close> for an index that is not negative.\<close>

definition py_getitem :: "'a list \<Rightarrow> nat \<Rightarrow> py_error + 'a" where
  "py_getitem xs i = (if i < length xs then Inr (xs ! i) else Inl IndexError)"

text \<open>\<^verbatim>\<open>xs.index(v)\<close>: the first position of \<open>v\<close>, or \<^verbatim>\<open>ValueError\<close>.\<close>

fun py_index :: "'a list \<Rightarrow> 'a \<Rightarrow> py_error + nat" where
  "py_index [] v = Inl ValueError"
| "py_index (x # xs) v =
     (if x = v then Inr 0
      else (case py_index xs v of Inl e \<Rightarrow> Inl e | Inr i \<Rightarrow> Inr (Suc i)))"

text \<open>\<^verbatim>\<open>xs[a:b]\<close> for bounds that are not negative.\<close>

definition py_slice :: "'a list \<Rightarrow> nat \<Rightarrow> nat \<Rightarrow> 'a list" where
  "py_slice xs a b = drop a (take b xs)"

text \<open>\<^verbatim>\<open>xs[:k]\<close> for any integer \<open>k\<close>: a negative bound counts from the end.\<close>

definition py_take :: "'a list \<Rightarrow> int \<Rightarrow> 'a list" where
  "py_take xs k =
     (if 0 \<le> k then take (nat k) xs
      else take (nat (int (length xs) + k)) xs)"

text \<open>\<^verbatim>\<open>str.lower()\<close> on code points below 256.\<close>

definition char_lower :: "char \<Rightarrow> char" where
  "char_lower c =
     (let n = (of_char c :: nat) in
      if (65 \<le> n \<and> n \<le> 90) \<or> (192 \<le> n \<and> n \<le> 222 \<and> n \<noteq> 215)
      then char_of (n + 32) else c)"

definition py_lower :: "string \<Rightarrow> string" where
  "py_lower s = map char_lower s"

section \<open>Decoding a tagged block (retrieval tools)\<close>

record document =
  d_id :: string
  d_main_concept :: string
  d_concepts :: "string list"
  d_text :: string

text \<open>The nested helper \<^verbatim>\<open>extract(bracket_line, label, default)\<close> of the source; \<open>extract\<close> is a
  reserved word here, hence the longer name.\<close>

definition extract_field :: "string \<Rightarrow> string \<Rightarrow> string \<Rightarrow> string" where
  "extract_field bracket_line label dflt =
     (let pfx = ''['' @ label @ '':'' in
      if py_startswith bracket_line pfx
      then py_strip (py_rstrip_chars '']'' (drop (length pfx) bracket_line))
      else dflt)"

text \<open>
  A header line is read only behind its length test, as in the source; the read is the
  checked \<open>py_getitem\<close>, so an index error would show in the result.
\<close>

definition header_field ::
  "string list \<Rightarrow> nat \<Rightarrow> string \<Rightarrow> string \<Rightarrow> py_error + string" where
  "header_field lines i label dflt =
     (if length lines > i
      then (case py_getitem lines i of
              Inl e \<Rightarrow> Inl e
            | Inr l \<Rightarrow> Inr (extract_field l label dflt))
      else Inr dflt)"

text \<open>
  \<^verbatim>\<open>try: sep_index = lines.index("---")\<close> with \<^verbatim>\<open>except ValueError: sep_index = len(lines)\<close>.
\<close>

definition sep_index :: "string list \<Rightarrow> nat" where
  "sep_index lines =
     (case py_index lines ''---'' of
        Inl e \<Rightarrow> length lines
      | Inr i \<Rightarrow> i)"

text \<open>\<^verbatim>\<open>lines[4:sep_index]\<close>\<close>

definition question_lines :: "string list \<Rightarrow> string list" where
  "question_lines lines = py_slice lines 4 (sep_index lines)"

text \<open>\<^verbatim>\<open>[c.strip() for c in concepts_raw.split(";") if c.strip()]\<close>\<close>

definition split_concepts :: "string \<Rightarrow> string list" where
  "split_concepts concepts_raw =
     map py_strip (filter (\<lambda>c. py_strip c \<noteq> []) (py_split (CHR '';'') concepts_raw))"

definition parse_block :: "string \<Rightarrow> py_error + document" where
  "parse_block raw =
     (let lines = py_splitlines raw in
      if length lines < 1 then
        Inr \<lparr>d_id = ''UNKNOWN_ID'', d_main_concept = ''UNKNOWN'', d_concepts = [],
             d_text = py_strip raw\<rparr>
      else
        (case header_field lines 0 ''ID'' ''UNKNOWN_ID'' of
           Inl e \<Rightarrow> Inl e
         | Inr id_v \<Rightarrow>
        (case header_field lines 1 ''MAIN_CONCEPT'' ''UNKNOWN'' of
           Inl e \<Rightarrow> Inl e
         | Inr main_concept \<Rightarrow>
        (case header_field lines 2 ''CONCEPTS'' '''' of
           Inl e \<Rightarrow> Inl e
         | Inr concepts_raw \<Rightarrow>
        (let concepts = split_concepts concepts_raw;
             question_text = py_strip (py_join [LF] (question_lines lines))
         in Inr \<lparr>d_id = id_v, d_main_concept = main_concept, d_concepts = concepts,
                 d_text = (if question_text \<noteq> [] then question_text
                           else py_strip raw)\<rparr>)))))"

section \<open>Queries against the retrieval backend (retrieval tools)\<close>

text \<open>
  One element of \<^verbatim>\<open>response.contexts\<close>. The source reads it with
  \<^verbatim>\<open>getattr(ctx, "text", "") or ""\<close> and \<^verbatim>\<open>float(getattr(ctx, "score", 0.0))\<close>:
  \<open>None\<close> stands for an attribute that is missing (for the text also one that is
  \<^verbatim>\<open>None\<close>).
\<close>

record rag_context =
  ctx_text :: "string option"
  ctx_score :: "real option"

text \<open>The dataclass \<^verbatim>\<open>QuestionHit\<close>: the four fields of a document and the score.\<close>

record question_hit = document +
  h_score :: real

text \<open>
  The call \<^verbatim>\<open>rag.retrieval_query(text=query, rag_retrieval_config=RagRetrievalConfig(top_k))\<close>
  leaves this repository; it is a parameter, a function from the query text and the limit
  to the returned contexts or to the exception it raises.
\<close>

type_synonym retrieval_query = "string \<Rightarrow> int \<Rightarrow> py_error + rag_context list"

text \<open>The body of the loop \<^verbatim>\<open>for ctx in contexts\<close> of \<^verbatim>\<open>search_questions\<close>.\<close>

definition hit_of_context :: "rag_context \<Rightarrow> py_error + question_hit" where
  "hit_of_context ctx =
     (let raw_text = (case ctx_text ctx of None \<Rightarrow> [] | Some t \<Rightarrow> t);
          score = (case ctx_score ctx of None \<Rightarrow> 0 | Some x \<Rightarrow> x)
      in case parse_block raw_text of
           Inl e \<Rightarrow> Inl e
         | Inr parsed \<Rightarrow>
             Inr \<lparr>d_id = d_id parsed, d_main_concept = d_main_concept parsed,
                  d_concepts = d_concepts parsed, d_text = d_text parsed,
                  h_score = score\<rparr>)"

fun collect_hits :: "rag_context list \<Rightarrow> py_error + question_hit list" where
  "collect_hits [] = Inr []"
| "collect_hits (ctx # contexts) =
     (case hit_of_context ctx of
        Inl e \<Rightarrow> Inl e
      | Inr h \<Rightarrow>
          (case collect_hits contexts of
             Inl e \<Rightarrow> Inl e
           | Inr hits \<Rightarrow> Inr (h # hits)))"

definition search_questions ::
  "retrieval_query \<Rightarrow> string \<Rightarrow> int \<Rightarrow> py_error + question_hit list" where
  "search_questions backend query top_k =
     (case backend query top_k of
        Inl e \<Rightarrow> Inl e
      | Inr contexts \<Rightarrow> collect_hits contexts)"

text \<open>
  The test of the filter loop:
  \<^verbatim>\<open>target == main_lower or target in concepts_lower\<close>.
\<close>

definition concept_matches :: "string \<Rightarrow> question_hit \<Rightarrow> bool" where
  "concept_matches target h =
     (let concepts_lower = map py_lower (d_concepts h);
          main_lower = py_lower (d_main_concept h)
      in target = main_lower \<or> target \<in> set concepts_lower)"

definition search_questions_by_concept ::
  "retrieval_query \<Rightarrow> string \<Rightarrow> int \<Rightarrow> py_error + question_hit list" where
  "search_questions_by_concept backend concept top_k =
     (case search_questions backend concept (top_k * 3) of
        Inl e \<Rightarrow> Inl e
      | Inr raw_hits \<Rightarrow>
          (let target = py_lower (py_strip concept);
               filtered = filter (concept_matches target) raw_hits
           in Inr (py_take (if filtered \<noteq> [] then filtered else raw_hits) top_k)))"

text \<open>The scan \<^verbatim>\<open>for h in hits: if (h.id or "").strip().lower() == qid: return h\<close>.\<close>

fun first_id_match :: "string \<Rightarrow> question_hit list \<Rightarrow> question_hit option" where
  "first_id_match qid [] = None"
| "first_id_match qid (h # hits) =
     (if py_lower (py_strip (d_id h)) = qid then Some h else first_id_match qid hits)"

definition get_question_by_id ::
  "retrieval_query \<Rightarrow> string \<Rightarrow> py_error + question_hit option" where
  "get_question_by_id backend question_id =
     (let qid = py_lower (py_strip question_id) in
      case search_questions backend question_id 10 of
        Inl e \<Rightarrow> Inl e
      | Inr hits \<Rightarrow> Inr (first_id_match qid hits))"

text \<open>
  A backend that ranks the whole corpus for a query and returns the best \<open>k\<close> entries:
  the reading of \<^verbatim>\<open>top_k\<close> under which a rank beyond the limit is meaningful.
\<close>

definition top_k_backend :: "(string \<Rightarrow> rag_context list) \<Rightarrow> retrieval_query" where
  "top_k_backend ranking query k = Inr (take (nat k) (ranking query))"

text \<open>Backends for concrete runs: one that answers every query with the same contexts,
  whatever the limit, and a ranking that is the same for every query.\<close>

definition constant_backend :: "rag_context list \<Rightarrow> retrieval_query" where
  "constant_backend contexts query k = Inr contexts"

definition constant_ranking :: "rag_context list \<Rightarrow> string \<Rightarrow> rag_context list" where
  "constant_ranking contexts query = contexts"

text \<open>A context whose text is a block with the given id and main concept.\<close>

definition sample_context :: "string \<Rightarrow> string \<Rightarrow> rag_context" where
  "sample_context i m =
     \<lparr>ctx_text = Some (''[ID: '' @ i @ '']'' @ [LF] @ ''[MAIN_CONCEPT: '' @ m @ '']'' @ [LF]
          @ ''[CONCEPTS: '' @ m @ '']'' @ [LF, LF] @ ''What?'' @ [LF, LF] @ ''---''),
      ctx_score = Some 1\<rparr>"

section \<open>Parsed JSON and the ingestion steps\<close>

text \<open>
  The values \<^verbatim>\<open>json.load\<close> builds: \<^verbatim>\<open>None\<close>, booleans, numbers, strings, lists and
  dictionaries (with string keys, each key once).
\<close>

datatype json =
    JNull
  | JBool bool
  | JNum real
  | JStr string
  | JList "json list"
  | JObj "(string \<times> json) list"

text \<open>Python's truth value of such a value, as \<^verbatim>\<open>or\<close> and \<^verbatim>\<open>if\<close> take it.\<close>

fun py_truthy :: "json \<Rightarrow> bool" where
  "py_truthy JNull = False"
| "py_truthy (JBool b) = b"
| "py_truthy (JNum x) = (x \<noteq> 0)"
| "py_truthy (JStr s) = (s \<noteq> [])"
| "py_truthy (JList xs) = (xs \<noteq> [])"
| "py_truthy (JObj kvs) = (kvs \<noteq> [])"

text \<open>\<^verbatim>\<open>x.get(key, dflt)\<close>: only a dictionary has the method.\<close>

fun py_get :: "json \<Rightarrow> string \<Rightarrow> json \<Rightarrow> py_error + json" where
  "py_get (JObj kvs) key dflt =
     (case map_of kvs key of None \<Rightarrow> Inr dflt | Some v \<Rightarrow> Inr v)"
| "py_get other key dflt = Inl AttributeError"

text \<open>\<^verbatim>\<open>x.strip()\<close>: only a string has the method.\<close>

fun py_strip_value :: "json \<Rightarrow> py_error + string" where
  "py_strip_value (JStr s) = Inr (py_strip s)"
| "py_strip_value other = Inl AttributeError"

text \<open>The elements a \<^verbatim>\<open>for\<close> loop or a comprehension draws from a value.\<close>

fun py_iter :: "json \<Rightarrow> py_error + json list" where
  "py_iter (JList xs) = Inr xs"
| "py_iter (JStr s) = Inr (map (\<lambda>c. JStr [c]) s)"
| "py_iter (JObj kvs) = Inr (map (\<lambda>kv. JStr (fst kv)) kvs)"
| "py_iter other = Inl TypeError"

text \<open>\<^verbatim>\<open>sub in s\<close> for strings.\<close>

fun is_substring :: "string \<Rightarrow> string \<Rightarrow> bool" where
  "is_substring sub [] = (sub = [])"
| "is_substring sub (c # cs) = (py_startswith (c # cs) sub \<or> is_substring sub cs)"

text \<open>\<^verbatim>\<open>key in data\<close>, for a string \<open>key\<close>.\<close>

fun py_contains :: "json \<Rightarrow> string \<Rightarrow> py_error + bool" where
  "py_contains (JObj kvs) key = Inr (key \<in> set (map fst kvs))"
| "py_contains (JList xs) key = Inr (JStr key \<in> set xs)"
| "py_contains (JStr s) key = Inr (is_substring key s)"
| "py_contains other key = Inl TypeError"

text \<open>\<^verbatim>\<open>data[key]\<close>, for a string \<open>key\<close>.\<close>

fun py_subscript :: "json \<Rightarrow> string \<Rightarrow> py_error + json" where
  "py_subscript (JObj kvs) key =
     (case map_of kvs key of None \<Rightarrow> Inl KeyError | Some v \<Rightarrow> Inr v)"
| "py_subscript other key = Inl TypeError"

fun is_list :: "json \<Rightarrow> bool" where
  "is_list (JList xs) = True"
| "is_list other = False"

subsection \<open>Step 1: load\<close>

text \<open>
  What \<^verbatim>\<open>load_raw_metadata\<close> finds at the input path: no file, a file that
  \<^verbatim>\<open>json.load\<close> rejects, or a file it parses. \<^verbatim>\<open>JSONDecodeError\<close> is the exception of
  \<^verbatim>\<open>json.load\<close>; \<open>ValueError\<close> is the one the function raises itself.
\<close>

datatype input_file = FileAbsent | FileNotJson | FileJson json

definition load_raw_metadata :: "input_file \<Rightarrow> py_error + json" where
  "load_raw_metadata f =
     (case f of
        FileAbsent \<Rightarrow> Inl FileNotFoundError
      | FileNotJson \<Rightarrow> Inl JSONDecodeError
      | FileJson data \<Rightarrow>
          (case py_contains data ''questions'' of
             Inl e \<Rightarrow> Inl e
           | Inr present \<Rightarrow>
               if \<not> present then Inl ValueError
               else (case py_subscript data ''questions'' of
                       Inl e \<Rightarrow> Inl e
                     | Inr v \<Rightarrow> if \<not> is_list v then Inl ValueError else Inr data)))"

subsection \<open>Step 2: normalize\<close>

text \<open>\<^verbatim>\<open>f"q_{idx:03d}"\<close> for an index that is not negative.\<close>

definition digit_char :: "nat \<Rightarrow> char" where
  "digit_char n = char_of (48 + n)"

fun decimal :: "nat \<Rightarrow> string" where
  "decimal n = (if n < 10 then [digit_char n] else decimal (n div 10) @ [digit_char (n mod 10)])"

declare decimal.simps [simp del]

definition format_03d :: "nat \<Rightarrow> string" where
  "format_03d n = replicate (3 - length (decimal n)) (CHR ''0'') @ decimal n"

definition q_id :: "nat \<Rightarrow> string" where
  "q_id idx = ''q_'' @ format_03d idx"

text \<open>\<^verbatim>\<open>matches[0]\<close> for a value that is true.\<close>

fun first_match :: "json \<Rightarrow> py_error + json" where
  "first_match (JList (m # ms)) = Inr m"
| "first_match (JList []) = Inl IndexError"
| "first_match (JStr (c # cs)) = Inr (JStr [c])"
| "first_match (JStr []) = Inl IndexError"
| "first_match (JObj kvs) = Inl KeyError"
| "first_match other = Inl TypeError"

text \<open>\<^verbatim>\<open>matches[:3]\<close>; only lists and strings can be sliced.\<close>

fun first_three :: "json \<Rightarrow> py_error + json list" where
  "first_three (JList ms) = Inr (take 3 ms)"
| "first_three (JStr s) = Inr (map (\<lambda>c. JStr [c]) (take 3 s))"
| "first_three (JObj kvs) = Inl KeyError"
| "first_three other = Inl TypeError"

text \<open>
  The comprehension
  \<^verbatim>\<open>[m.get("concept", "").strip() for m in matches[:3] if m.get("concept")]\<close>.
\<close>

fun concept_names :: "json list \<Rightarrow> py_error + string list" where
  "concept_names [] = Inr []"
| "concept_names (m # ms) =
     (case py_get m ''concept'' JNull of
        Inl e \<Rightarrow> Inl e
      | Inr test \<Rightarrow>
          if py_truthy test then
            (case py_get m ''concept'' (JStr []) of
               Inl e \<Rightarrow> Inl e
             | Inr v \<Rightarrow>
                 (case py_strip_value v of
                    Inl e \<Rightarrow> Inl e
                  | Inr c \<Rightarrow>
                      (case concept_names ms of
                         Inl e \<Rightarrow> Inl e
                       | Inr cs \<Rightarrow> Inr (c # cs))))
          else concept_names ms)"

text \<open>The body of the loop of \<^verbatim>\<open>normalize_metadata\<close> for one item and its index.\<close>

definition normalize_item :: "nat \<Rightarrow> json \<Rightarrow> py_error + json" where
  "normalize_item idx item =
     (case py_get item ''question'' (JStr []) of
        Inl e \<Rightarrow> Inl e
      | Inr q \<Rightarrow>
     (case py_strip_value q of
        Inl e \<Rightarrow> Inl e
      | Inr q_text \<Rightarrow>
     (case py_get item ''matches'' (JList []) of
        Inl e \<Rightarrow> Inl e
      | Inr got \<Rightarrow>
     (let matches = (if py_truthy got then got else JList []) in
      if py_truthy matches then
        (case first_match matches of
           Inl e \<Rightarrow> Inl e
         | Inr m0 \<Rightarrow>
        (case py_get m0 ''concept'' (JStr ''UNKNOWN'') of
           Inl e \<Rightarrow> Inl e
         | Inr main_concept \<Rightarrow>
        (case first_three matches of
           Inl e \<Rightarrow> Inl e
         | Inr ms \<Rightarrow>
        (case concept_names ms of
           Inl e \<Rightarrow> Inl e
         | Inr concept_list \<Rightarrow>
             Inr (JObj [(''id'', JStr (q_id idx)), (''text'', JStr q_text),
                        (''main_concept'', main_concept),
                        (''concepts'', JList (map JStr concept_list))])))))
      else
        Inr (JObj [(''id'', JStr (q_id idx)), (''text'', JStr q_text),
                   (''main_concept'', JStr ''UNKNOWN''),
                   (''concepts'', JList [])])))))"

text \<open>\<^verbatim>\<open>for idx, item in enumerate(questions, start=1)\<close>, from the index \<open>idx\<close> on.\<close>

fun normalize_items :: "nat \<Rightarrow> json list \<Rightarrow> py_error + json list" where
  "normalize_items idx [] = Inr []"
| "normalize_items idx (item # items) =
     (case normalize_item idx item of
        Inl e \<Rightarrow> Inl e
      | Inr entry \<Rightarrow>
          (case normalize_items (Suc idx) items of
             Inl e \<Rightarrow> Inl e
           | Inr entries \<Rightarrow> Inr (entry # entries)))"

definition normalize_metadata :: "json \<Rightarrow> py_error + json list" where
  "normalize_metadata raw =
     (case py_get raw ''questions'' (JList []) of
        Inl e \<Rightarrow> Inl e
      | Inr questions \<Rightarrow>
          (case py_iter questions of
             Inl e \<Rightarrow> Inl e
           | Inr items \<Rightarrow> normalize_items 1 items))"

subsection \<open>Step 3: build the corpus text\<close>

text \<open>
  \<^verbatim>\<open>"; ".join(c for c in concepts if c)\<close>: the parts that are true; \<^verbatim>\<open>join\<close> accepts
  strings only.
\<close>

fun join_parts :: "json list \<Rightarrow> py_error + string list" where
  "join_parts [] = Inr []"
| "join_parts (c # cs) =
     (if py_truthy c then
        (case c of
           JStr s \<Rightarrow> (case join_parts cs of Inl e \<Rightarrow> Inl e | Inr ps \<Rightarrow> Inr (s # ps))
         | _ \<Rightarrow> Inl TypeError)
      else join_parts cs)"

text \<open>The body of the loop of \<^verbatim>\<open>build_corpus_text\<close>: the block of one entry.\<close>

definition build_block :: "json \<Rightarrow> py_error + string" where
  "build_block e =
     (case py_get e ''id'' (JStr []) of Inl err \<Rightarrow> Inl err | Inr v1 \<Rightarrow>
     (case py_strip_value v1 of Inl err \<Rightarrow> Inl err | Inr q_id_v \<Rightarrow>
     (case py_get e ''text'' (JStr []) of Inl err \<Rightarrow> Inl err | Inr v2 \<Rightarrow>
     (case py_strip_value v2 of Inl err \<Rightarrow> Inl err | Inr text_v \<Rightarrow>
     (case py_get e ''main_concept'' (JStr ''UNKNOWN'') of Inl err \<Rightarrow> Inl err | Inr v3 \<Rightarrow>
     (case py_strip_value v3 of Inl err \<Rightarrow> Inl err | Inr main_concept \<Rightarrow>
     (case py_get e ''concepts'' JNull of Inl err \<Rightarrow> Inl err | Inr v4 \<Rightarrow>
     (let concepts = (if py_truthy v4 then v4 else JList []) in
      case py_iter concepts of Inl err \<Rightarrow> Inl err | Inr cs \<Rightarrow>
     (case join_parts cs of Inl err \<Rightarrow> Inl err | Inr parts \<Rightarrow>
     (let concepts_str = py_join ''; '' parts;
          header_lines =
            [''[ID: '' @ q_id_v @ '']'',
             ''[MAIN_CONCEPT: '' @ main_concept @ '']'',
             ''[CONCEPTS: '' @ concepts_str @ '']'',
             [],
             text_v,
             [],
             ''---'']
      in Inr (py_join [LF] header_lines)))))))))))"

fun build_blocks :: "json list \<Rightarrow> py_error + string list" where
  "build_blocks [] = Inr []"
| "build_blocks (e # es) =
     (case build_block e of
        Inl err \<Rightarrow> Inl err
      | Inr b \<Rightarrow>
          (case build_blocks es of
             Inl err \<Rightarrow> Inl err
           | Inr bs \<Rightarrow> Inr (b # bs)))"

definition build_corpus_text :: "json list \<Rightarrow> py_error + string" where
  "build_corpus_text entries =
     (case build_blocks entries of
        Inl err \<Rightarrow> Inl err
      | Inr blocks \<Rightarrow> Inr (py_strip (py_join [LF, LF] blocks) @ [LF]))"

subsection \<open>Documents and datasets as JSON\<close>

text \<open>
  The entry that \<^verbatim>\<open>normalize_metadata\<close> appends for a document, with its four keys; a
  document of the data model with string fields.
\<close>

definition entry_json :: "document \<Rightarrow> json" where
  "entry_json d =
     JObj [(''id'', JStr (d_id d)), (''text'', JStr (d_text d)),
           (''main_concept'', JStr (d_main_concept d)),
           (''concepts'', JList (map JStr (d_concepts d)))]"

text \<open>
  The input dataset of the interface description:
  \<^verbatim>\<open>{"questions": [{"question": str, "matches": [{"concept": str, "score": number}]}]}\<close>.
\<close>

record raw_match =
  m_concept :: string
  m_score :: real

record raw_item =
  i_question :: string
  i_matches :: "raw_match list"

definition match_json :: "raw_match \<Rightarrow> json" where
  "match_json m = JObj [(''concept'', JStr (m_concept m)), (''score'', JNum (m_score m))]"

definition item_json :: "raw_item \<Rightarrow> json" where
  "item_json it =
     JObj [(''question'', JStr (i_question it)),
           (''matches'', JList (map match_json (i_matches it)))]"

definition dataset_json :: "raw_item list \<Rightarrow> json" where
  "dataset_json items = JObj [(''questions'', JList (map item_json items))]"

text \<open>The block text of a document: what \<^verbatim>\<open>build_corpus_text\<close> writes for its entry.\<close>

definition encode_document :: "document \<Rightarrow> string" where
  "encode_document d =
     ''[ID: '' @ py_strip (d_id d) @ '']'' @ [LF]
     @ ''[MAIN_CONCEPT: '' @ py_strip (d_main_concept d) @ '']'' @ [LF]
     @ ''[CONCEPTS: '' @ py_join ''; '' (filter (\<lambda>c. c \<noteq> []) (d_concepts d)) @ '']'' @ [LF]
     @ [LF]
     @ py_strip (d_text d) @ [LF]
     @ [LF]
     @ ''---''"

text \<open>The number an id carries, \<^verbatim>\<open>int(id[2:])\<close>: the reading that undoes \<open>q_id\<close>.\<close>

definition digit_value :: "char \<Rightarrow> nat" where
  "digit_value c = of_char c - 48"

definition decimal_value :: "string \<Rightarrow> nat" where
  "decimal_value s = foldl (\<lambda>a c. 10 * a + digit_value c) 0 s"

definition id_number :: "string \<Rightarrow> nat" where
  "id_number s = decimal_value (drop 2 s)"

section \<open>Properties of the decoder\<close>

lemma header_field_eq:
  "header_field lines i label dflt =
     Inr (if i < length lines then extract_field (lines ! i) label dflt else dflt)"
  by (simp add: header_field_def py_getitem_def)

lemma parse_block_eq:
  "parse_block raw =
     Inr (if py_splitlines raw = [] then
            \<lparr>d_id = ''UNKNOWN_ID'', d_main_concept = ''UNKNOWN'', d_concepts = [],
             d_text = py_strip raw\<rparr>
          else
            \<lparr>d_id = extract_field (py_splitlines raw ! 0) ''ID'' ''UNKNOWN_ID'',
             d_main_concept =
               (if 1 < length (py_splitlines raw)
                then extract_field (py_splitlines raw ! 1) ''MAIN_CONCEPT'' ''UNKNOWN''
                else ''UNKNOWN''),
             d_concepts =
               split_concepts
                 (if 2 < length (py_splitlines raw)
                  then extract_field (py_splitlines raw ! 2) ''CONCEPTS'' ''''
                  else ''''),
             d_text =
               (if py_strip (py_join [LF] (question_lines (py_splitlines raw))) \<noteq> []
                then py_strip (py_join [LF] (question_lines (py_splitlines raw)))
                else py_strip raw)\<rparr>)"
  by (simp add: parse_block_def header_field_eq Let_def)

lemma py_splitlines_Nil_iff: "py_splitlines s = [] \<longleftrightarrow> s = []"
  by (cases s) (auto split: list.splits)

lemma py_index_Inl: "py_index xs v = Inl e \<Longrightarrow> v \<notin> set xs"
  by (induction xs arbitrary: e) (auto split: if_splits sum.splits)

lemma py_index_notin: "v \<notin> set xs \<Longrightarrow> py_index xs v = Inl ValueError"
  by (induction xs) auto

lemma py_index_takeWhile:
  "py_index xs v = Inr i \<Longrightarrow> i = length (takeWhile (\<lambda>x. x \<noteq> v) xs)"
  by (induction xs arbitrary: i) (auto split: if_splits sum.splits)

lemma take_sep_index: "take (sep_index lines) lines = takeWhile (\<lambda>l. l \<noteq> ''---'') lines"
proof (cases "py_index lines ''---''")
  case (Inl e)
  then have "''---'' \<notin> set lines" by (rule py_index_Inl)
  then have "\<forall>l\<in>set lines. l \<noteq> ''---''" by blast
  then have tw: "takeWhile (\<lambda>l. l \<noteq> ''---'') lines = lines"
    by (rule takeWhile_eq_all_conv[THEN iffD2])
  have "take (sep_index lines) lines = lines"
    using Inl by (simp add: sep_index_def)
  also have "\<dots> = takeWhile (\<lambda>l. l \<noteq> ''---'') lines"
    by (rule tw[symmetric])
  finally show ?thesis .
next
  case (Inr i)
  then have i: "i = length (takeWhile (\<lambda>l. l \<noteq> ''---'') lines)"
    by (rule py_index_takeWhile)
  have "take (sep_index lines) lines = take i lines"
    using Inr by (simp add: sep_index_def)
  also have "\<dots> = takeWhile (\<lambda>l. l \<noteq> ''---'') lines"
    unfolding i by (rule takeWhile_eq_take[symmetric])
  finally show ?thesis .
qed

lemma question_lines_eq:
  "question_lines lines = drop 4 (takeWhile (\<lambda>l. l \<noteq> ''---'') lines)"
  by (simp add: question_lines_def py_slice_def take_sep_index)

lemma all_dropWhile_iff: "(\<forall>c\<in>set (dropWhile P s). P c) \<longleftrightarrow> (\<forall>c\<in>set s. P c)"
proof
  assume a: "\<forall>c\<in>set (dropWhile P s). P c"
  show "\<forall>c\<in>set s. P c"
  proof (cases "dropWhile P s")
    case Nil
    then show ?thesis by (simp only: dropWhile_eq_Nil_conv)
  next
    case (Cons x xs)
    then have "\<not> P x" using hd_dropWhile[of P s] by auto
    moreover have "P x" using a Cons by simp
    ultimately show ?thesis by blast
  qed
next
  assume "\<forall>c\<in>set s. P c"
  then show "\<forall>c\<in>set (dropWhile P s). P c" by (auto dest: set_dropWhileD)
qed

lemma py_strip_Nil_iff: "py_strip s = [] \<longleftrightarrow> (\<forall>c\<in>set s. is_space c)"
  by (simp add: py_strip_def py_rstrip_def py_lstrip_def all_dropWhile_iff)

lemma set_py_join: "set (py_join sep ls) \<subseteq> set sep \<union> (\<Union>l\<in>set ls. set l)"
  by (induction sep ls rule: py_join.induct) auto

lemma is_space_LF: "is_space LF"
  by (simp add: is_space_def LF_def)

lemma split_concepts_Nil: "split_concepts [] = []"
  by (simp add: split_concepts_def py_strip_def py_rstrip_def py_lstrip_def)

lemma parse_block_empty:
  "parse_block [] = Inr \<lparr>d_id = ''UNKNOWN_ID'', d_main_concept = ''UNKNOWN'', d_concepts = [],
      d_text = []\<rparr>"
  by (simp add: parse_block_def py_strip_def py_lstrip_def py_rstrip_def)

lemma parse_block_id_only:
  "parse_block ''[ID: q_001]'' = Inr \<lparr>d_id = ''q_001'', d_main_concept = ''UNKNOWN'',
      d_concepts = [], d_text = ''[ID: q_001]''\<rparr>"
  by code_simp

text \<open>
  Claim C2. Decoding never raises: for every input string \<open>parse_block\<close> returns a
  document. A field whose data is absent takes its default: with no line at all every
  field is at its default and the text is the stripped input; the main concept is
  \<open>UNKNOWN\<close> when there is at most one line, and the concepts are empty when there are at
  most two lines; a header line that does not start with its tag leaves the id at
  \<open>UNKNOWN_ID\<close>, the main concept at \<open>UNKNOWN\<close>, the concepts empty. The empty string,
  a lone \<open>[ID: ...]\<close> line and a block without the closing \<open>---\<close> are instances.
\<close>

theorem parse_block_never_raises:
  "\<exists>d. parse_block raw = Inr d
     \<and> (py_splitlines raw = [] \<longrightarrow>
           d = \<lparr>d_id = ''UNKNOWN_ID'', d_main_concept = ''UNKNOWN'', d_concepts = [],
                 d_text = py_strip raw\<rparr>)
     \<and> (length (py_splitlines raw) \<le> 1 \<longrightarrow> d_main_concept d = ''UNKNOWN'')
     \<and> (length (py_splitlines raw) \<le> 2 \<longrightarrow> d_concepts d = [])
     \<and> (py_splitlines raw \<noteq> [] \<and> \<not> py_startswith (py_splitlines raw ! 0) ''[ID:'' \<longrightarrow>
           d_id d = ''UNKNOWN_ID'')
     \<and> (1 < length (py_splitlines raw)
           \<and> \<not> py_startswith (py_splitlines raw ! 1) ''[MAIN_CONCEPT:'' \<longrightarrow>
           d_main_concept d = ''UNKNOWN'')
     \<and> (2 < length (py_splitlines raw)
           \<and> \<not> py_startswith (py_splitlines raw ! 2) ''[CONCEPTS:'' \<longrightarrow>
           d_concepts d = [])"
proof (cases "py_splitlines raw = []")
  case True
  then show ?thesis
    by (simp add: parse_block_eq)
next
  case False
  have miss: "extract_field l label dflt = dflt" if "\<not> py_startswith l (''['' @ label @ '':'')"
    for l label dflt
    using that by (simp add: extract_field_def Let_def)
  have m0: "\<not> py_startswith (py_splitlines raw ! 0) ''[ID:'' \<Longrightarrow>
      extract_field (py_splitlines raw ! 0) ''ID'' ''UNKNOWN_ID'' = ''UNKNOWN_ID''"
    using miss [of "py_splitlines raw ! 0" "''ID''" "''UNKNOWN_ID''"] by simp
  have m1: "\<not> py_startswith (py_splitlines raw ! 1) ''[MAIN_CONCEPT:'' \<Longrightarrow>
      extract_field (py_splitlines raw ! 1) ''MAIN_CONCEPT'' ''UNKNOWN'' = ''UNKNOWN''"
    using miss [of "py_splitlines raw ! 1" "''MAIN_CONCEPT''" "''UNKNOWN''"] by simp
  have m2: "\<not> py_startswith (py_splitlines raw ! 2) ''[CONCEPTS:'' \<Longrightarrow>
      extract_field (py_splitlines raw ! 2) ''CONCEPTS'' [] = []"
    using miss [of "py_splitlines raw ! 2" "''CONCEPTS''" "[]"] by simp
  show ?thesis
    using False m0 m1 m2
    by (auto simp: parse_block_eq split_concepts_Nil)
qed


theorem parse_block_never_raises_witness:
  "py_splitlines [] = [] \<and> length (py_splitlines []) \<le> 1 \<and> length (py_splitlines []) \<le> 2
   \<and> parse_block [] = Inr \<lparr>d_id = ''UNKNOWN_ID'', d_main_concept = ''UNKNOWN'',
         d_concepts = [], d_text = []\<rparr>
   \<and> py_splitlines ''ID q_001'' \<noteq> []
   \<and> \<not> py_startswith (py_splitlines ''ID q_001'' ! 0) ''[ID:''
   \<and> parse_block ''ID q_001'' = Inr \<lparr>d_id = ''UNKNOWN_ID'', d_main_concept = ''UNKNOWN'',
         d_concepts = [], d_text = ''ID q_001''\<rparr>
   \<and> parse_block (''[ID: q_001]'' @ [LF] @ ''[MAIN_CONCEPT: m]'' @ [LF] @ ''[CONCEPTS: c]''
         @ [LF, LF] @ ''What?'') =
       Inr \<lparr>d_id = ''q_001'', d_main_concept = ''m'', d_concepts = [''c''],
            d_text = ''What?''\<rparr>"
proof -
  have h1: "py_splitlines [] = [] \<and> length (py_splitlines []) \<le> 1
      \<and> length (py_splitlines []) \<le> 2"
    by simp
  have h2: "py_splitlines ''ID q_001'' \<noteq> []
      \<and> \<not> py_startswith (py_splitlines ''ID q_001'' ! 0) ''[ID:''"
    by code_simp
  have h3: "parse_block ''ID q_001'' = Inr \<lparr>d_id = ''UNKNOWN_ID'', d_main_concept = ''UNKNOWN'',
         d_concepts = [], d_text = ''ID q_001''\<rparr>"
    by code_simp
  have h4: "parse_block (''[ID: q_001]'' @ [LF] @ ''[MAIN_CONCEPT: m]'' @ [LF] @ ''[CONCEPTS: c]''
         @ [LF, LF] @ ''What?'') =
       Inr \<lparr>d_id = ''q_001'', d_main_concept = ''m'', d_concepts = [''c''],
            d_text = ''What?''\<rparr>"
    by code_simp
  have h5: "parse_block [] = Inr \<lparr>d_id = ''UNKNOWN_ID'', d_main_concept = ''UNKNOWN'',
         d_concepts = [], d_text = []\<rparr>"
    by (rule parse_block_empty)
  show ?thesis
    using parse_block_never_raises [of "[]"] parse_block_never_raises [of "''ID q_001''"]
      h1 h2 h3 h4 h5
    by blast
qed

text \<open>
  Claim C3, as stated, fails: the input \<open>[ID: q_001]\<close> has one line, its lines from
  index 4 on are empty, and yet the decoded text is the whole input.
\<close>

theorem text_extraction_counterexample:
  "py_splitlines ''[ID: q_001]'' \<noteq> []
   \<and> parse_block ''[ID: q_001]'' = Inr \<lparr>d_id = ''q_001'', d_main_concept = ''UNKNOWN'',
        d_concepts = [], d_text = ''[ID: q_001]''\<rparr>
   \<and> ''[ID: q_001]'' \<noteq> py_join [LF] (question_lines (py_splitlines ''[ID: q_001]''))"
  by code_simp

text \<open>
  Claim C3, amended. For every input string, the decoded text is the lines from index 4 up
  to (excluding) the first line equal to \<open>---\<close>, or up to the end of the input when there
  is no such line, joined by line feeds and stripped of leading and trailing whitespace;
  when that is empty, the text is the whole stripped input instead. When the input has no
  line at all it is the empty string, and the result is the empty text with every other
  field at its default.
\<close>

theorem text_extraction:
  "\<exists>d. parse_block raw = Inr d
     \<and> d_text d =
         (if py_strip (py_join [LF] (drop 4 (takeWhile (\<lambda>l. l \<noteq> ''---'') (py_splitlines raw)))) \<noteq> []
          then py_strip (py_join [LF] (drop 4 (takeWhile (\<lambda>l. l \<noteq> ''---'') (py_splitlines raw))))
          else py_strip raw)
     \<and> (py_splitlines raw = [] \<longrightarrow>
          raw = [] \<and> d = \<lparr>d_id = ''UNKNOWN_ID'', d_main_concept = ''UNKNOWN'', d_concepts = [],
                           d_text = []\<rparr>)"
proof (cases "py_splitlines raw = []")
  case True
  then have "raw = []" by (simp add: py_splitlines_Nil_iff)
  then show ?thesis
    by (simp add: parse_block_empty py_strip_def py_lstrip_def py_rstrip_def)
next
  case False
  then show ?thesis
    by (simp add: parse_block_eq question_lines_eq)
qed

theorem text_extraction_witness:
  "py_splitlines [] = []
   \<and> (\<exists>d. parse_block [] = Inr d \<and> d_text d = []
          \<and> d = \<lparr>d_id = ''UNKNOWN_ID'', d_main_concept = ''UNKNOWN'', d_concepts = [],
                  d_text = []\<rparr>)"
  using text_extraction [of "[]"] by simp

text \<open>
  Claim C10. When the input has at least one line and the lines from index 4 up to the
  first \<open>---\<close> are absent or hold only whitespace, the decoded text is the whole input
  stripped of leading and trailing whitespace, header lines included. Hence a decoded text
  is empty only when the whole input is whitespace.
\<close>

theorem blank_body_fallback:
  "(py_splitlines raw \<noteq> []
      \<and> (\<forall>l\<in>set (question_lines (py_splitlines raw)). \<forall>c\<in>set l. is_space c)
     \<longrightarrow> (\<exists>d. parse_block raw = Inr d \<and> d_text d = py_strip raw))
   \<and> (\<forall>d. parse_block raw = Inr d \<and> d_text d = [] \<longrightarrow> (\<forall>c\<in>set raw. is_space c))"
proof (intro conjI impI allI)
  assume a: "py_splitlines raw \<noteq> []
      \<and> (\<forall>l\<in>set (question_lines (py_splitlines raw)). \<forall>c\<in>set l. is_space c)"
  have "\<forall>c\<in>set (py_join [LF] (question_lines (py_splitlines raw))). is_space c"
    using a set_py_join [of "[LF]" "question_lines (py_splitlines raw)"] is_space_LF
    by auto
  then have "py_strip (py_join [LF] (question_lines (py_splitlines raw))) = []"
    by (simp only: py_strip_Nil_iff)
  then show "\<exists>d. parse_block raw = Inr d \<and> d_text d = py_strip raw"
    by (simp add: parse_block_eq)
next
  fix d
  assume "parse_block raw = Inr d \<and> d_text d = []"
  then have "py_strip raw = []"
    by (auto simp: parse_block_eq split: if_splits)
  then show "\<forall>c\<in>set raw. is_space c"
    by (simp only: py_strip_Nil_iff)
qed

theorem blank_body_fallback_witness:
  "py_splitlines (''[ID: q_001]'' @ [LF] @ ''[MAIN_CONCEPT: m]'' @ [LF] @ ''[CONCEPTS: c]''
        @ [LF, LF] @ '' '' @ [LF] @ ''---'') \<noteq> []
   \<and> question_lines (py_splitlines (''[ID: q_001]'' @ [LF] @ ''[MAIN_CONCEPT: m]'' @ [LF]
        @ ''[CONCEPTS: c]'' @ [LF, LF] @ '' '' @ [LF] @ ''---'')) = ['' '']
   \<and> is_space CHR '' ''
   \<and> (\<exists>d. parse_block (''[ID: q_001]'' @ [LF] @ ''[MAIN_CONCEPT: m]'' @ [LF] @ ''[CONCEPTS: c]''
        @ [LF, LF] @ '' '' @ [LF] @ ''---'') = Inr d
        \<and> d_text d = py_strip (''[ID: q_001]'' @ [LF] @ ''[MAIN_CONCEPT: m]'' @ [LF]
             @ ''[CONCEPTS: c]'' @ [LF, LF] @ '' '' @ [LF] @ ''---''))
   \<and> d_text \<lparr>d_id = ''UNKNOWN_ID'', d_main_concept = ''UNKNOWN'', d_concepts = [],
        d_text = []\<rparr> = []
   \<and> parse_block '' '' = Inr \<lparr>d_id = ''UNKNOWN_ID'', d_main_concept = ''UNKNOWN'',
        d_concepts = [], d_text = []\<rparr>
   \<and> list_all is_space '' ''"
proof -
  let ?B = "''[ID: q_001]'' @ [LF] @ ''[MAIN_CONCEPT: m]'' @ [LF] @ ''[CONCEPTS: c]''
        @ [LF, LF] @ '' '' @ [LF] @ ''---''"
  have h1: "py_splitlines ?B \<noteq> []" by code_simp
  have h2: "question_lines (py_splitlines ?B) = ['' '']" by code_simp
  have h3: "is_space CHR '' ''" by code_simp
  have h4: "parse_block '' '' = Inr \<lparr>d_id = ''UNKNOWN_ID'', d_main_concept = ''UNKNOWN'',
        d_concepts = [], d_text = []\<rparr>" by code_simp
  from h2 h3 have h5: "\<forall>l\<in>set (question_lines (py_splitlines ?B)). \<forall>c\<in>set l. is_space c"
    by simp
  have h6: "d_text \<lparr>d_id = ''UNKNOWN_ID'', d_main_concept = ''UNKNOWN'', d_concepts = [],
        d_text = []\<rparr> = []" by simp
  have p1: "\<exists>d. parse_block ?B = Inr d \<and> d_text d = py_strip ?B"
    using blank_body_fallback [of ?B] h1 h5 by blast
  have "\<forall>c\<in>set '' ''. is_space c"
    using blank_body_fallback [of "'' ''"] h4 h6 by blast
  then have p2: "list_all is_space '' ''"
    by (simp only: list_all_iff)
  show ?thesis
    using h1 h2 h3 h4 h6 p1 p2 by blast
qed

section \<open>Properties of the retrieval layer\<close>

lemma hit_of_context_total: "\<exists>h. hit_of_context ctx = Inr h"
  by (simp add: hit_of_context_def parse_block_eq Let_def)

lemma collect_hits_total:
  "\<exists>hits. collect_hits contexts = Inr hits \<and> length hits = length contexts
     \<and> (\<forall>i<length contexts. hit_of_context (contexts ! i) = Inr (hits ! i))"
proof (induction contexts)
  case Nil
  show ?case by simp
next
  case (Cons ctx contexts)
  obtain h where h: "hit_of_context ctx = Inr h"
    using hit_of_context_total by blast
  from Cons obtain hits where hits: "collect_hits contexts = Inr hits"
      "length hits = length contexts"
      "\<forall>i<length contexts. hit_of_context (contexts ! i) = Inr (hits ! i)"
    by blast
  have "collect_hits (ctx # contexts) = Inr (h # hits)"
    using h hits(1) by simp
  moreover have "\<forall>i<length (ctx # contexts). hit_of_context ((ctx # contexts) ! i) = Inr ((h # hits) ! i)"
    using h hits(3) by (auto simp: nth_Cons split: nat.splits)
  ultimately show ?case using hits(2) by auto
qed

lemma collect_hits_Nil_iff: "collect_hits contexts = Inr [] \<longleftrightarrow> contexts = []"
  using collect_hits_total [of contexts] by auto

lemma concept_matches_iff:
  "concept_matches target h \<longleftrightarrow>
     target = py_lower (d_main_concept h) \<or> (\<exists>c\<in>set (d_concepts h). target = py_lower c)"
  by (auto simp: concept_matches_def Let_def)

lemma first_id_match_find:
  "first_id_match qid hits = find (\<lambda>h. py_lower (py_strip (d_id h)) = qid) hits"
  by (induction hits) auto

lemma py_take_pos: "0 < k \<Longrightarrow> py_take xs k = take (nat k) xs"
  by (simp add: py_take_def)

text \<open>
  Claim C4, as stated for every \<open>top_k\<close>, fails at \<open>top_k = 0\<close>: the backend answers the
  query with one hit (which even matches the concept), and the result is empty, since
  \<^verbatim>\<open>[:0]\<close> keeps nothing.
\<close>

theorem concept_search_counterexample:
  "search_questions (constant_backend [sample_context ''q_001'' ''Algebra'']) ''algebra'' (0 * 3) =
     Inr [\<lparr>d_id = ''q_001'', d_main_concept = ''Algebra'', d_concepts = [''Algebra''],
           d_text = ''What?'', h_score = 1\<rparr>]
   \<and> search_questions_by_concept (constant_backend [sample_context ''q_001'' ''Algebra''])
        ''algebra'' 0 = Inr []"
  by code_simp

text \<open>
  Claim C4, amended to \<open>top_k \<ge> 1\<close>. When the backend answers the query for the concept
  with limit \<open>top_k * 3\<close>, the result is the hits whose lower-cased main concept equals
  the trimmed lower-cased concept, or one of whose lower-cased concepts does, in backend
  order and cut to the first \<open>top_k\<close>; when no hit passes the filter, it is the first
  \<open>top_k\<close> raw hits. So the result is not empty when the raw hits are not.
\<close>

theorem concept_search:
  assumes "0 < top_k" and "backend concept (top_k * 3) = Inr contexts"
  shows "\<exists>raw_hits. search_questions backend concept (top_k * 3) = Inr raw_hits
      \<and> length raw_hits = length contexts
      \<and> search_questions_by_concept backend concept top_k =
          Inr (take (nat top_k)
            (if filter (\<lambda>h. py_lower (py_strip concept) = py_lower (d_main_concept h)
                   \<or> (\<exists>c\<in>set (d_concepts h). py_lower (py_strip concept) = py_lower c)) raw_hits = []
             then raw_hits
             else filter (\<lambda>h. py_lower (py_strip concept) = py_lower (d_main_concept h)
                   \<or> (\<exists>c\<in>set (d_concepts h). py_lower (py_strip concept) = py_lower c)) raw_hits))
      \<and> (raw_hits \<noteq> [] \<longrightarrow> search_questions_by_concept backend concept top_k \<noteq> Inr [])"
proof -
  let ?P = "\<lambda>h. py_lower (py_strip concept) = py_lower (d_main_concept h)
                   \<or> (\<exists>c\<in>set (d_concepts h). py_lower (py_strip concept) = py_lower c)"
  obtain raw_hits where r: "collect_hits contexts = Inr raw_hits"
      "length raw_hits = length contexts"
    using collect_hits_total by blast
  have sq: "search_questions backend concept (top_k * 3) = Inr raw_hits"
    using assms(2) r(1) by (simp add: search_questions_def)
  have cm: "concept_matches (py_lower (py_strip concept)) = ?P"
    by (rule ext) (simp only: concept_matches_iff)
  have res: "search_questions_by_concept backend concept top_k =
      Inr (take (nat top_k) (if filter ?P raw_hits = [] then raw_hits else filter ?P raw_hits))"
    using sq assms(1) by (simp add: search_questions_by_concept_def Let_def cm py_take_pos)
  have ne: "raw_hits \<noteq> [] \<longrightarrow> search_questions_by_concept backend concept top_k \<noteq> Inr []"
  proof
    assume "raw_hits \<noteq> []"
    then have "(if filter ?P raw_hits = [] then raw_hits else filter ?P raw_hits) \<noteq> []"
      by simp
    moreover have "0 < nat top_k" using assms(1) by simp
    ultimately have "take (nat top_k) (if filter ?P raw_hits = [] then raw_hits else filter ?P raw_hits) \<noteq> []"
      by (simp only: take_eq_Nil) simp
    then show "search_questions_by_concept backend concept top_k \<noteq> Inr []"
      unfolding res by simp
  qed
  show ?thesis using sq r(2) res ne by blast
qed

theorem concept_search_witness:
  "(0::int) < 1
   \<and> constant_backend [sample_context ''q_001'' ''Geometry'', sample_context ''q_002'' ''Algebra'',
        sample_context ''q_003'' ''ALGEBRA''] '' algebra '' (1 * 3) =
       Inr [sample_context ''q_001'' ''Geometry'', sample_context ''q_002'' ''Algebra'',
        sample_context ''q_003'' ''ALGEBRA'']
   \<and> search_questions_by_concept
        (constant_backend [sample_context ''q_001'' ''Geometry'', sample_context ''q_002'' ''Algebra'',
           sample_context ''q_003'' ''ALGEBRA'']) '' algebra '' 1 =
       Inr [\<lparr>d_id = ''q_002'', d_main_concept = ''Algebra'', d_concepts = [''Algebra''],
             d_text = ''What?'', h_score = 1\<rparr>]"
proof -
  let ?cs = "[sample_context ''q_001'' ''Geometry'', sample_context ''q_002'' ''Algebra'',
        sample_context ''q_003'' ''ALGEBRA'']"
  have h1: "(0::int) < 1" by simp
  have h2: "constant_backend ?cs '' algebra '' (1 * 3) = Inr ?cs"
    by (simp add: constant_backend_def)
  have h3: "search_questions_by_concept (constant_backend ?cs) '' algebra '' 1 =
       Inr [\<lparr>d_id = ''q_002'', d_main_concept = ''Algebra'', d_concepts = [''Algebra''],
             d_text = ''What?'', h_score = 1\<rparr>]"
    by code_simp
  show ?thesis
    using concept_search [where top_k = 1 and backend = "constant_backend ?cs"
        and concept = "'' algebra ''" and contexts = ?cs] h1 h2 h3
    by blast
qed


text \<open>
  With a backend that returns at most as many contexts as the limit asks for, the
  description of the concept search holds for every \<open>top_k\<close>: where \<open>top_k\<close> is not
  positive the backend returns nothing and the result is empty.
\<close>

theorem concept_search_limited_backend:
  "\<exists>raw_hits. search_questions (top_k_backend ranking) concept (top_k * 3) = Inr raw_hits
      \<and> search_questions_by_concept (top_k_backend ranking) concept top_k =
          Inr (take (nat top_k)
            (if filter (concept_matches (py_lower (py_strip concept))) raw_hits = []
             then raw_hits
             else filter (concept_matches (py_lower (py_strip concept))) raw_hits))
      \<and> (raw_hits \<noteq> [] \<longrightarrow>
            search_questions_by_concept (top_k_backend ranking) concept top_k \<noteq> Inr [])"
proof -
  let ?P = "concept_matches (py_lower (py_strip concept))"
  let ?ctxs = "take (nat (top_k * 3)) (ranking concept)"
  obtain raw_hits where r: "collect_hits ?ctxs = Inr raw_hits" "length raw_hits = length ?ctxs"
    using collect_hits_total by blast
  let ?kept = "if filter ?P raw_hits = [] then raw_hits else filter ?P raw_hits"
  have sq: "search_questions (top_k_backend ranking) concept (top_k * 3) = Inr raw_hits"
    using r(1) by (simp add: search_questions_def top_k_backend_def)
  have res: "search_questions_by_concept (top_k_backend ranking) concept top_k =
      Inr (py_take ?kept top_k)"
    using sq by (simp add: search_questions_by_concept_def Let_def)
  show ?thesis
  proof (cases "0 < top_k")
    case True
    have t: "py_take ?kept top_k = take (nat top_k) ?kept"
      using True by (rule py_take_pos)
    have "raw_hits \<noteq> [] \<longrightarrow> take (nat top_k) ?kept \<noteq> []"
      using True by (simp add: take_eq_Nil)
    then show ?thesis using sq res t by auto
  next
    case False
    then have "nat (top_k * 3) = 0" by simp
    then have e: "raw_hits = []" using r(2) by simp
    then have "py_take ?kept top_k = take (nat top_k) ?kept"
      by (simp add: py_take_def)
    then show ?thesis using sq res e by auto
  qed
qed

theorem concept_search_limited_backend_witness:
  "search_questions (top_k_backend (constant_ranking
       [sample_context ''q_001'' ''Geometry'', sample_context ''q_002'' ''Algebra'']))
       ''algebra'' (1 * 3) =
     Inr [\<lparr>d_id = ''q_001'', d_main_concept = ''Geometry'', d_concepts = [''Geometry''],
           d_text = ''What?'', h_score = 1\<rparr>,
          \<lparr>d_id = ''q_002'', d_main_concept = ''Algebra'', d_concepts = [''Algebra''],
           d_text = ''What?'', h_score = 1\<rparr>]
   \<and> search_questions_by_concept (top_k_backend (constant_ranking
       [sample_context ''q_001'' ''Geometry'', sample_context ''q_002'' ''Algebra'']))
       ''algebra'' 1 =
     Inr [\<lparr>d_id = ''q_002'', d_main_concept = ''Algebra'', d_concepts = [''Algebra''],
           d_text = ''What?'', h_score = 1\<rparr>]
   \<and> search_questions (top_k_backend (constant_ranking
       [sample_context ''q_001'' ''Geometry'', sample_context ''q_002'' ''Algebra'']))
       ''algebra'' (0 * 3) = Inr []
   \<and> search_questions_by_concept (top_k_backend (constant_ranking
       [sample_context ''q_001'' ''Geometry'', sample_context ''q_002'' ''Algebra'']))
       ''algebra'' 0 = Inr []"
proof -
  let ?b = "top_k_backend (constant_ranking
       [sample_context ''q_001'' ''Geometry'', sample_context ''q_002'' ''Algebra''])"
  have h1: "search_questions ?b ''algebra'' (1 * 3) =
     Inr [\<lparr>d_id = ''q_001'', d_main_concept = ''Geometry'', d_concepts = [''Geometry''],
           d_text = ''What?'', h_score = 1\<rparr>,
          \<lparr>d_id = ''q_002'', d_main_concept = ''Algebra'', d_concepts = [''Algebra''],
           d_text = ''What?'', h_score = 1\<rparr>]"
    by code_simp
  have h2: "search_questions_by_concept ?b ''algebra'' 1 =
     Inr [\<lparr>d_id = ''q_002'', d_main_concept = ''Algebra'', d_concepts = [''Algebra''],
           d_text = ''What?'', h_score = 1\<rparr>]"
    by code_simp
  have h3: "search_questions ?b ''algebra'' (0 * 3) = Inr []" by code_simp
  have h4: "search_questions_by_concept ?b ''algebra'' 0 = Inr []" by code_simp
  show ?thesis
    using concept_search_limited_backend [of "constant_ranking
       [sample_context ''q_001'' ''Geometry'', sample_context ''q_002'' ''Algebra'']"
       "''algebra''" 1] h1 h2 h3 h4
    by blast
qed

text \<open>
  Claim C5. \<open>get_question_by_id\<close> queries the backend with the id string and limit 10 and
  returns the first hit, in backend order, whose decoded id, trimmed and lower-cased,
  equals the trimmed lower-cased query id; when no returned hit matches it returns
  \<open>None\<close>, without raising. The witness runs it on a ranking whose eleventh entry alone
  matches.
\<close>

theorem id_lookup:
  assumes "backend question_id 10 = Inr contexts"
  shows "\<exists>hits. search_questions backend question_id 10 = Inr hits
      \<and> length hits = length contexts
      \<and> get_question_by_id backend question_id =
          Inr (find (\<lambda>h. py_lower (py_strip (d_id h)) = py_lower (py_strip question_id)) hits)
      \<and> ((\<forall>h\<in>set hits. py_lower (py_strip (d_id h)) \<noteq> py_lower (py_strip question_id))
           \<longrightarrow> get_question_by_id backend question_id = Inr None)"
proof -
  obtain hits where r: "collect_hits contexts = Inr hits" "length hits = length contexts"
    using collect_hits_total by blast
  have sq: "search_questions backend question_id 10 = Inr hits"
    using assms r(1) by (simp add: search_questions_def)
  have res: "get_question_by_id backend question_id =
      Inr (find (\<lambda>h. py_lower (py_strip (d_id h)) = py_lower (py_strip question_id)) hits)"
    using sq by (simp add: get_question_by_id_def Let_def first_id_match_find)
  have "(\<forall>h\<in>set hits. py_lower (py_strip (d_id h)) \<noteq> py_lower (py_strip question_id))
           \<longrightarrow> get_question_by_id backend question_id = Inr None"
    by (simp add: res find_None_iff)
  then show ?thesis using sq r(2) res by blast
qed

theorem id_lookup_witness:
  "top_k_backend (constant_ranking
      [sample_context ''q_002'' ''m'', sample_context ''q_003'' ''m'', sample_context ''q_004'' ''m'',
       sample_context ''q_005'' ''m'', sample_context ''q_006'' ''m'', sample_context ''q_007'' ''m'',
       sample_context ''q_008'' ''m'', sample_context ''q_009'' ''m'', sample_context ''q_010'' ''m'',
       sample_context ''q_011'' ''m'', sample_context ''q_001'' ''m'']) ''q_001'' 10 =
     Inr [sample_context ''q_002'' ''m'', sample_context ''q_003'' ''m'', sample_context ''q_004'' ''m'',
       sample_context ''q_005'' ''m'', sample_context ''q_006'' ''m'', sample_context ''q_007'' ''m'',
       sample_context ''q_008'' ''m'', sample_context ''q_009'' ''m'', sample_context ''q_010'' ''m'',
       sample_context ''q_011'' ''m'']
   \<and> get_question_by_id (top_k_backend (constant_ranking
      [sample_context ''q_002'' ''m'', sample_context ''q_003'' ''m'', sample_context ''q_004'' ''m'',
       sample_context ''q_005'' ''m'', sample_context ''q_006'' ''m'', sample_context ''q_007'' ''m'',
       sample_context ''q_008'' ''m'', sample_context ''q_009'' ''m'', sample_context ''q_010'' ''m'',
       sample_context ''q_011'' ''m'', sample_context ''q_001'' ''m''])) ''q_001'' = Inr None
   \<and> constant_backend [sample_context ''q_002'' ''m'', sample_context ''Q_001'' ''m'',
        sample_context ''q_001'' ''n''] '' q_001 '' 10 =
       Inr [sample_context ''q_002'' ''m'', sample_context ''Q_001'' ''m'',
        sample_context ''q_001'' ''n'']
   \<and> get_question_by_id (constant_backend [sample_context ''q_002'' ''m'',
        sample_context ''Q_001'' ''m'', sample_context ''q_001'' ''n'']) '' q_001 '' =
       Inr (Some \<lparr>d_id = ''Q_001'', d_main_concept = ''m'', d_concepts = [''m''],
             d_text = ''What?'', h_score = 1\<rparr>)"
proof -
  let ?r = "[sample_context ''q_002'' ''m'', sample_context ''q_003'' ''m'', sample_context ''q_004'' ''m'',
       sample_context ''q_005'' ''m'', sample_context ''q_006'' ''m'', sample_context ''q_007'' ''m'',
       sample_context ''q_008'' ''m'', sample_context ''q_009'' ''m'', sample_context ''q_010'' ''m'',
       sample_context ''q_011'' ''m'', sample_context ''q_001'' ''m'']"
  let ?c = "[sample_context ''q_002'' ''m'', sample_context ''Q_001'' ''m'',
        sample_context ''q_001'' ''n'']"
  have h1: "top_k_backend (constant_ranking ?r) ''q_001'' 10 = Inr (butlast ?r)"
    by (simp add: top_k_backend_def constant_ranking_def)
  have h2: "constant_backend ?c '' q_001 '' 10 = Inr ?c"
    by (simp add: constant_backend_def)
  have h3: "get_question_by_id (top_k_backend (constant_ranking ?r)) ''q_001'' = Inr None"
    by code_simp
  have h4: "get_question_by_id (constant_backend ?c) '' q_001 '' =
       Inr (Some \<lparr>d_id = ''Q_001'', d_main_concept = ''m'', d_concepts = [''m''],
             d_text = ''What?'', h_score = 1\<rparr>)"
    by code_simp
  show ?thesis
    using id_lookup [where backend = "top_k_backend (constant_ranking ?r)"
        and question_id = "''q_001''" and contexts = "butlast ?r"]
      id_lookup [where backend = "constant_backend ?c" and question_id = "'' q_001 ''"
        and contexts = ?c] h1 h2 h3 h4
    by simp
qed

section \<open>Properties of the ingestion steps\<close>

subsection \<open>Normalizing a dataset\<close>

lemma concept_names_matches:
  "concept_names (map match_json ms) =
     Inr (map py_strip (filter (\<lambda>c. c \<noteq> []) (map m_concept ms)))"
  by (induction ms) (simp_all add: match_json_def)

lemma normalize_item_json:
  "normalize_item idx (item_json it) =
     Inr (entry_json
       \<lparr>d_id = q_id idx,
        d_main_concept =
          (case i_matches it of [] \<Rightarrow> ''UNKNOWN'' | m # ms \<Rightarrow> m_concept m),
        d_concepts = map py_strip (filter (\<lambda>c. c \<noteq> []) (map m_concept (take 3 (i_matches it)))),
        d_text = py_strip (i_question it)\<rparr>)"
proof (cases "i_matches it")
  case Nil
  then show ?thesis
    by (simp add: normalize_item_def item_json_def entry_json_def)
next
  case (Cons m ms)
  have "concept_names (take 3 (map match_json (m # ms))) =
      Inr (map py_strip (filter (\<lambda>c. c \<noteq> []) (map m_concept (take 3 (m # ms)))))"
    unfolding take_map by (rule concept_names_matches)
  then show ?thesis using Cons
    by (simp add: normalize_item_def item_json_def entry_json_def match_json_def)
qed

lemma normalize_items_json:
  "\<exists>docs. normalize_items idx (map item_json items) = Inr (map entry_json docs)
     \<and> length docs = length items
     \<and> (\<forall>i<length items. normalize_item (idx + i) (item_json (items ! i)) = Inr (entry_json (docs ! i)))"
proof (induction items arbitrary: idx)
  case Nil
  show ?case by simp
next
  case (Cons it items)
  obtain d where d: "normalize_item idx (item_json it) = Inr (entry_json d)"
    using normalize_item_json by blast
  from Cons [of "Suc idx"] obtain docs where docs:
      "normalize_items (Suc idx) (map item_json items) = Inr (map entry_json docs)"
      "length docs = length items"
      "\<forall>i<length items. normalize_item (Suc idx + i) (item_json (items ! i)) = Inr (entry_json (docs ! i))"
    by blast
  have 1: "normalize_items idx (map item_json (it # items)) = Inr (map entry_json (d # docs))"
    using d docs(1) by simp
  have 2: "\<forall>i<length (it # items). normalize_item (idx + i) (item_json ((it # items) ! i)) =
      Inr (entry_json ((d # docs) ! i))"
    using d docs(3) by (auto simp: nth_Cons split: nat.splits)
  show ?case using 1 2 docs(2) by (intro exI [of _ "d # docs"]) simp
qed

lemma digit_value_digit_char: "n < 10 \<Longrightarrow> digit_value (digit_char n) = n"
  by (simp add: digit_value_def digit_char_def)

lemma decimal_value_snoc:
  "decimal_value (s @ [c]) = 10 * decimal_value s + digit_value c"
  by (simp add: decimal_value_def)

lemma decimal_value_decimal: "decimal_value (decimal n) = n"
proof (induction n rule: decimal.induct)
  case (1 n)
  show ?case
  proof (cases "n < 10")
    case True
    then show ?thesis
      by (subst decimal.simps) (simp add: decimal_value_def digit_value_digit_char)
  next
    case False
    then have "decimal_value (decimal (n div 10)) = n div 10" using 1 by simp
    moreover have "decimal n = decimal (n div 10) @ [digit_char (n mod 10)]"
      using False by (subst decimal.simps) simp
    ultimately show ?thesis
      by (simp add: decimal_value_snoc digit_value_digit_char)
  qed
qed

lemma decimal_value_zeros: "decimal_value (replicate k (CHR ''0'') @ s) = decimal_value s"
proof -
  have "foldl (\<lambda>a c. 10 * a + digit_value c) 0 (replicate k (CHR ''0'')) = 0"
    by (induction k) (simp_all add: digit_value_def)
  then show ?thesis by (simp add: decimal_value_def)
qed

lemma id_number_q_id: "id_number (q_id n) = n"
  by (simp add: id_number_def q_id_def format_03d_def decimal_value_zeros decimal_value_decimal)

lemma entry_json_inject: "entry_json d = entry_json d' \<Longrightarrow> d = d'"
  by (cases d, cases d') (simp add: entry_json_def inj_map_eq_map inj_on_def)

text \<open>
  Claim C6, amended. For every dataset of the input shape, \<open>normalize_metadata\<close> returns
  one entry per item, in the input order. The entry at position \<open>i\<close> (from 0) has the id
  \<open>q_\<close> followed by \<open>i + 1\<close> padded with zeros to three digits, so the number the id
  carries is \<open>i + 1\<close> and grows strictly along the list. An item without matches gets the
  main concept \<open>UNKNOWN\<close> and no concepts. An item with matches gets the concept of its
  first match as main concept, as it is, and as concepts the trimmed concept names of its
  first three matches, in their order, leaving out the names that are empty before
  trimming.
\<close>

theorem normalize_postcondition:
  "\<exists>docs. normalize_metadata (dataset_json items) = Inr (map entry_json docs)
     \<and> length docs = length items
     \<and> (\<forall>i<length items.
           d_id (docs ! i) = q_id (Suc i)
         \<and> id_number (d_id (docs ! i)) = Suc i
         \<and> (i_matches (items ! i) = [] \<longrightarrow>
               d_main_concept (docs ! i) = ''UNKNOWN'' \<and> d_concepts (docs ! i) = [])
         \<and> (i_matches (items ! i) \<noteq> [] \<longrightarrow>
               d_main_concept (docs ! i) = m_concept (hd (i_matches (items ! i)))
             \<and> d_concepts (docs ! i) =
                 map py_strip (filter (\<lambda>c. c \<noteq> [])
                   (map m_concept (take 3 (i_matches (items ! i)))))))"
proof -
  obtain docs where docs:
      "normalize_items 1 (map item_json items) = Inr (map entry_json docs)"
      "length docs = length items"
      "\<forall>i<length items. normalize_item (1 + i) (item_json (items ! i)) = Inr (entry_json (docs ! i))"
    using normalize_items_json [of 1 items] by blast
  have nm: "normalize_metadata (dataset_json items) = Inr (map entry_json docs)"
    using docs(1) by (simp add: normalize_metadata_def dataset_json_def)
  have each: "d_id (docs ! i) = q_id (Suc i)
         \<and> id_number (d_id (docs ! i)) = Suc i
         \<and> (i_matches (items ! i) = [] \<longrightarrow>
               d_main_concept (docs ! i) = ''UNKNOWN'' \<and> d_concepts (docs ! i) = [])
         \<and> (i_matches (items ! i) \<noteq> [] \<longrightarrow>
               d_main_concept (docs ! i) = m_concept (hd (i_matches (items ! i)))
             \<and> d_concepts (docs ! i) =
                 map py_strip (filter (\<lambda>c. c \<noteq> [])
                   (map m_concept (take 3 (i_matches (items ! i))))))"
    if i: "i < length items" for i
  proof -
    have "entry_json (docs ! i) = entry_json
       \<lparr>d_id = q_id (Suc i),
        d_main_concept =
          (case i_matches (items ! i) of [] \<Rightarrow> ''UNKNOWN'' | m # ms \<Rightarrow> m_concept m),
        d_concepts = map py_strip (filter (\<lambda>c. c \<noteq> [])
           (map m_concept (take 3 (i_matches (items ! i))))),
        d_text = py_strip (i_question (items ! i))\<rparr>"
      using docs(3) i normalize_item_json [of "Suc i" "items ! i"] by simp
    then have eq: "docs ! i =
       \<lparr>d_id = q_id (Suc i),
        d_main_concept =
          (case i_matches (items ! i) of [] \<Rightarrow> ''UNKNOWN'' | m # ms \<Rightarrow> m_concept m),
        d_concepts = map py_strip (filter (\<lambda>c. c \<noteq> [])
           (map m_concept (take 3 (i_matches (items ! i))))),
        d_text = py_strip (i_question (items ! i))\<rparr>"
      by (rule entry_json_inject)
    show ?thesis
      by (cases "i_matches (items ! i)") (simp_all add: eq id_number_q_id)
  qed
  show ?thesis
    using nm docs(2) each by blast
qed

text \<open>
  Claim C6, as stated, fails: the concepts are not the concept names of the first matches
  but their trimmed forms. The names \<open>" A "\<close> and \<open>" "\<close> give the concepts \<open>"A"\<close> and the
  empty string.
\<close>

theorem normalize_postcondition_counterexample:
  "map m_concept (take 3 [\<lparr>m_concept = '' A '', m_score = 1\<rparr>, \<lparr>m_concept = '' '', m_score = 0\<rparr>])
     = ['' A '', '' '']
   \<and> normalize_metadata (dataset_json
        [\<lparr>i_question = ''Q'', i_matches =
            [\<lparr>m_concept = '' A '', m_score = 1\<rparr>, \<lparr>m_concept = '' '', m_score = 0\<rparr>]\<rparr>]) =
      Inr [JObj [(''id'', JStr ''q_001''), (''text'', JStr ''Q''),
                 (''main_concept'', JStr '' A ''),
                 (''concepts'', JList [JStr ''A'', JStr ''''])]]"
  by code_simp

theorem normalize_postcondition_witness:
  "(0::nat) < length [\<lparr>i_question = '' What is x? '', i_matches =
          [\<lparr>m_concept = ''A'', m_score = 5\<rparr>, \<lparr>m_concept = '''', m_score = 4\<rparr>,
           \<lparr>m_concept = ''C'', m_score = 3\<rparr>, \<lparr>m_concept = ''D'', m_score = 2\<rparr>,
           \<lparr>m_concept = ''E'', m_score = 1\<rparr>]\<rparr>,
        \<lparr>i_question = ''Why?'', i_matches = []\<rparr>]
   \<and> normalize_metadata (dataset_json
        [\<lparr>i_question = '' What is x? '', i_matches =
          [\<lparr>m_concept = ''A'', m_score = 5\<rparr>, \<lparr>m_concept = '''', m_score = 4\<rparr>,
           \<lparr>m_concept = ''C'', m_score = 3\<rparr>, \<lparr>m_concept = ''D'', m_score = 2\<rparr>,
           \<lparr>m_concept = ''E'', m_score = 1\<rparr>]\<rparr>,
        \<lparr>i_question = ''Why?'', i_matches = []\<rparr>]) =
      Inr (map entry_json
        [\<lparr>d_id = ''q_001'', d_main_concept = ''A'', d_concepts = [''A'', ''C''],
          d_text = ''What is x?''\<rparr>,
         \<lparr>d_id = ''q_002'', d_main_concept = ''UNKNOWN'', d_concepts = [],
          d_text = ''Why?''\<rparr>])
   \<and> id_number ''q_001'' = 1 \<and> id_number ''q_002'' = 2"
proof -
  let ?items = "[\<lparr>i_question = '' What is x? '', i_matches =
          [\<lparr>m_concept = ''A'', m_score = 5\<rparr>, \<lparr>m_concept = '''', m_score = 4\<rparr>,
           \<lparr>m_concept = ''C'', m_score = 3\<rparr>, \<lparr>m_concept = ''D'', m_score = 2\<rparr>,
           \<lparr>m_concept = ''E'', m_score = 1\<rparr>]\<rparr>,
        \<lparr>i_question = ''Why?'', i_matches = []\<rparr>]"
  have h1: "(0::nat) < length ?items" by simp
  have h2: "normalize_metadata (dataset_json ?items) =
      Inr (map entry_json
        [\<lparr>d_id = ''q_001'', d_main_concept = ''A'', d_concepts = [''A'', ''C''],
          d_text = ''What is x?''\<rparr>,
         \<lparr>d_id = ''q_002'', d_main_concept = ''UNKNOWN'', d_concepts = [],
          d_text = ''Why?''\<rparr>])"
    by code_simp
  have h3: "id_number ''q_001'' = 1 \<and> id_number ''q_002'' = 2"
    by code_simp
  show ?thesis
    using normalize_postcondition [of ?items] h1 h2 h3 by blast
qed

subsection \<open>The corpus text\<close>

lemma join_parts_strings: "join_parts (map JStr cs) = Inr (filter (\<lambda>c. c \<noteq> []) cs)"
  by (induction cs) simp_all

lemma build_block_entry: "build_block (entry_json d) = Inr (encode_document d)"
  by (cases "d_concepts d")
     (simp_all add: build_block_def entry_json_def encode_document_def join_parts_strings)

lemma build_blocks_entries:
  "build_blocks (map entry_json docs) = Inr (map encode_document docs)"
  by (induction docs) (simp_all add: build_block_entry)

lemma py_strip_id:
  assumes "s \<noteq> []" and "\<not> is_space (hd s)" and "\<not> is_space (last s)"
  shows "py_strip s = s"
proof -
  have 1: "dropWhile is_space s = s"
    using assms(1,2) by (cases s) simp_all
  have lemma_hd: "dropWhile is_space t = t" if "t \<noteq> []" and "\<not> is_space (hd t)" for t
    using that by (cases t) simp_all
  have "rev s \<noteq> []" using assms(1) by simp
  moreover have "\<not> is_space (hd (rev s))" using assms(1,3) by (simp add: hd_rev)
  ultimately have 2: "dropWhile is_space (rev s) = rev s"
    by (rule lemma_hd)
  show ?thesis
    by (simp add: py_strip_def py_lstrip_def py_rstrip_def 1 2)
qed

lemma encode_document_shape:
  "encode_document d \<noteq> [] \<and> hd (encode_document d) = CHR ''[''
     \<and> last (encode_document d) = CHR ''-''"
  by (simp add: encode_document_def)

lemma py_join_nonempty:
  "xs \<noteq> [] \<Longrightarrow> \<forall>x\<in>set xs. x \<noteq> [] \<Longrightarrow>
     py_join sep xs \<noteq> [] \<and> hd (py_join sep xs) = hd (hd xs)
       \<and> last (py_join sep xs) = last (last xs)"
proof (induction sep xs rule: py_join.induct)
  case (1 sep)
  then show ?case by simp
next
  case (2 sep x)
  then show ?case by simp
next
  case (3 sep x y ys)
  then show ?case by simp
qed

text \<open>
  Claim C9. For a list of documents that is not empty, \<open>build_corpus_text\<close> returns the
  blocks of the documents, each with its non-empty concepts joined by \<open>"; "\<close> (none
  gives \<open>[CONCEPTS: ]\<close>), joined by two line feeds, that is one blank line between two
  blocks, followed by one line feed. The part before that line feed is trimmed: it starts
  with \<open>[\<close> and ends with \<open>-\<close>.
\<close>

theorem corpus_blob_assembly:
  assumes "docs \<noteq> []"
  shows "\<exists>blob. build_corpus_text (map entry_json docs) = Inr (blob @ [LF])
      \<and> blob = py_join [LF, LF] (map encode_document docs)
      \<and> py_strip blob = blob
      \<and> blob \<noteq> []
      \<and> hd blob = CHR ''[''
      \<and> last blob = CHR ''-''"
proof -
  let ?blocks = "map encode_document docs"
  let ?blob = "py_join [LF, LF] ?blocks"
  have ne: "?blocks \<noteq> []" using assms by simp
  have all: "\<forall>x\<in>set ?blocks. x \<noteq> []"
    using encode_document_shape by auto
  have shape: "?blob \<noteq> [] \<and> hd ?blob = hd (hd ?blocks) \<and> last ?blob = last (last ?blocks)"
    using py_join_nonempty [OF ne all] .
  have h: "hd (hd ?blocks) = CHR ''[''"
    using assms encode_document_shape by (simp add: hd_map)
  have l: "last (last ?blocks) = CHR ''-''"
    using assms encode_document_shape by (simp add: last_map)
  have hb: "hd ?blob = CHR ''[''" using shape h by simp
  have lb: "last ?blob = CHR ''-''" using shape l by simp
  have "\<not> is_space (CHR ''['')" and "\<not> is_space (CHR ''-'')"
    by (simp_all add: is_space_def)
  then have strip: "py_strip ?blob = ?blob"
    using shape hb lb by (intro py_strip_id) simp_all
  have "build_corpus_text (map entry_json docs) = Inr (?blob @ [LF])"
    by (simp add: build_corpus_text_def build_blocks_entries strip)
  then show ?thesis using strip shape hb lb by blast
qed

theorem corpus_blob_assembly_witness:
  "[\<lparr>d_id = ''q_001'', d_main_concept = ''A'', d_concepts = [''A'', ''B''], d_text = ''What?''\<rparr>,
    \<lparr>d_id = ''q_002'', d_main_concept = ''UNKNOWN'', d_concepts = [], d_text = ''Why?''\<rparr>] \<noteq> []
   \<and> build_corpus_text (map entry_json
       [\<lparr>d_id = ''q_001'', d_main_concept = ''A'', d_concepts = [''A'', ''B''], d_text = ''What?''\<rparr>,
        \<lparr>d_id = ''q_002'', d_main_concept = ''UNKNOWN'', d_concepts = [], d_text = ''Why?''\<rparr>]) =
     Inr (''[ID: q_001]'' @ [LF] @ ''[MAIN_CONCEPT: A]'' @ [LF] @ ''[CONCEPTS: A; B]'' @ [LF]
          @ [LF] @ ''What?'' @ [LF] @ [LF] @ ''---'' @ [LF]
          @ [LF]
          @ ''[ID: q_002]'' @ [LF] @ ''[MAIN_CONCEPT: UNKNOWN]'' @ [LF] @ ''[CONCEPTS: ]'' @ [LF]
          @ [LF] @ ''Why?'' @ [LF] @ [LF] @ ''---'' @ [LF])"
proof -
  let ?docs = "[\<lparr>d_id = ''q_001'', d_main_concept = ''A'', d_concepts = [''A'', ''B''], d_text = ''What?''\<rparr>,
    \<lparr>d_id = ''q_002'', d_main_concept = ''UNKNOWN'', d_concepts = [], d_text = ''Why?''\<rparr>]"
  have h1: "?docs \<noteq> []" by simp
  have h2: "build_corpus_text (map entry_json ?docs) =
     Inr (''[ID: q_001]'' @ [LF] @ ''[MAIN_CONCEPT: A]'' @ [LF] @ ''[CONCEPTS: A; B]'' @ [LF]
          @ [LF] @ ''What?'' @ [LF] @ [LF] @ ''---'' @ [LF]
          @ [LF]
          @ ''[ID: q_002]'' @ [LF] @ ''[MAIN_CONCEPT: UNKNOWN]'' @ [LF] @ ''[CONCEPTS: ]'' @ [LF]
          @ [LF] @ ''Why?'' @ [LF] @ [LF] @ ''---'' @ [LF])"
    by code_simp
  show ?thesis
    using corpus_blob_assembly [of ?docs] h1 h2 by blast
qed

subsection \<open>Loading the input file\<close>

text \<open>
  Claim C8 against the code: a file that is present and holds well-formed JSON whose top
  level is not an object, such as \<open>null\<close>, a number, the list \<open>["questions"]\<close> or the
  string \<open>"questions"\<close>, makes the validation expression itself raise \<open>TypeError\<close>,
  which is neither the error for malformed input (\<open>ValueError\<close>) nor a return.
\<close>

theorem load_raw_metadata_non_object:
  "load_raw_metadata (FileJson JNull) = Inl TypeError
   \<and> load_raw_metadata (FileJson (JNum 5)) = Inl TypeError
   \<and> load_raw_metadata (FileJson (JList [JStr ''questions''])) = Inl TypeError
   \<and> load_raw_metadata (FileJson (JStr ''questions'')) = Inl TypeError"
  by (simp add: load_raw_metadata_def py_startswith_def)

text \<open>
  On a top-level object the function does what the claim says.
\<close>

lemma load_raw_metadata_object:
  "load_raw_metadata (FileJson (JObj kvs)) =
     (case map_of kvs ''questions'' of
        Some (JList qs) \<Rightarrow> Inr (JObj kvs)
      | _ \<Rightarrow> Inl ValueError)"
proof (cases "map_of kvs ''questions''")
  case None
  then have "''questions'' \<notin> fst ` set kvs"
    by (simp add: map_of_eq_None_iff)
  with None show ?thesis by (simp add: load_raw_metadata_def)
next
  case (Some v)
  then have "''questions'' \<in> fst ` set kvs"
    by (metis map_of_eq_None_iff option.distinct(1))
  with Some show ?thesis
    by (cases v) (simp_all add: load_raw_metadata_def)
qed

lemma py_contains_error: "py_contains x key = Inl e \<Longrightarrow> e = TypeError"
  by (cases x) simp_all

lemma py_subscript_error: "py_subscript x key = Inl e \<Longrightarrow> e = KeyError \<or> e = TypeError"
  by (cases x) (auto split: option.splits)

lemma load_raw_metadata_absent:
  "load_raw_metadata f = Inl FileNotFoundError \<longleftrightarrow> f = FileAbsent"
  by (cases f)
     (auto simp: load_raw_metadata_def split: sum.splits if_splits
           dest: py_contains_error py_subscript_error)

text \<open>
  Loading, where the validation reaches: the error for a missing file is raised exactly
  when the file is absent; a top-level object without the key \<open>questions\<close>, or with a
  value under it that is not a list, raises \<open>ValueError\<close>; any other top-level object
  is returned as it is.
\<close>

theorem load_raw_metadata_on_objects:
  "(load_raw_metadata f = Inl FileNotFoundError \<longleftrightarrow> f = FileAbsent)
   \<and> load_raw_metadata (FileJson (JObj kvs)) =
       (case map_of kvs ''questions'' of
          Some (JList qs) \<Rightarrow> Inr (JObj kvs)
        | _ \<Rightarrow> Inl ValueError)"
  using load_raw_metadata_absent [of f] load_raw_metadata_object [of kvs] by blast


subsection \<open>The concepts of a document\<close>

lemma last_dropWhile: "dropWhile P xs \<noteq> [] \<Longrightarrow> last (dropWhile P xs) = last xs"
  by (induction xs) (auto split: if_splits)

lemma py_strip_ends:
  assumes "py_strip s \<noteq> []"
  shows "\<not> is_space (hd (py_strip s))" and "\<not> is_space (last (py_strip s))"
proof -
  let ?t = "dropWhile is_space s"
  let ?u = "dropWhile is_space (rev ?t)"
  have u: "?u \<noteq> []" using assms by (simp add: py_strip_def py_lstrip_def py_rstrip_def)
  have t: "?t \<noteq> []"
  proof
    assume "?t = []"
    then have "?u = []" by (simp only: rev.simps dropWhile.simps)
    with u show False by contradiction
  qed
  have "last (py_strip s) = hd ?u"
    using u by (simp add: py_strip_def py_lstrip_def py_rstrip_def last_rev)
  moreover have "\<not> is_space (hd ?u)" using u by (rule hd_dropWhile)
  ultimately show "\<not> is_space (last (py_strip s))" by simp
  have "hd (py_strip s) = last ?u"
    using u by (simp add: py_strip_def py_lstrip_def py_rstrip_def hd_rev)
  also have "\<dots> = last (rev ?t)" using u by (rule last_dropWhile)
  also have "\<dots> = hd ?t" using t by (simp add: last_rev)
  finally have "hd (py_strip s) = hd ?t" .
  moreover have "\<not> is_space (hd ?t)" using t by (rule hd_dropWhile)
  ultimately show "\<not> is_space (hd (py_strip s))" by simp
qed

lemma py_strip_idem: "py_strip (py_strip s) = py_strip s"
proof (cases "py_strip s = []")
  case True
  have "py_strip [] = []" by (simp add: py_strip_def py_lstrip_def py_rstrip_def)
  then show ?thesis unfolding True .
next
  case False
  then show ?thesis using py_strip_ends [OF False] by (intro py_strip_id)
qed

lemma split_concepts_nonempty:
  "c \<in> set (split_concepts s) \<Longrightarrow> py_strip c \<noteq> [] \<and> py_strip c = c"
  by (auto simp: split_concepts_def py_strip_idem)

lemma concept_names_length: "concept_names ms = Inr cs \<Longrightarrow> length cs \<le> length ms"
proof (induction ms arbitrary: cs)
  case Nil
  then show ?case by simp
next
  case (Cons m ms)
  then show ?case
    by (fastforce split: sum.splits if_splits)
qed

lemma first_three_length: "first_three m = Inr ms \<Longrightarrow> length ms \<le> 3"
  by (cases m) auto

lemma normalize_item_shape:
  assumes "normalize_item idx item = Inr e"
  shows "\<exists>t m cs. e = JObj [(''id'', JStr (q_id idx)), (''text'', JStr t),
            (''main_concept'', m), (''concepts'', JList (map JStr cs))]
          \<and> length cs \<le> 3"
proof -
  have "(\<exists>t m matches ms cs. first_three matches = Inr ms \<and> concept_names ms = Inr cs
           \<and> e = JObj [(''id'', JStr (q_id idx)), (''text'', JStr t),
                (''main_concept'', m), (''concepts'', JList (map JStr cs))])
        \<or> (\<exists>t. e = JObj [(''id'', JStr (q_id idx)), (''text'', JStr t),
                (''main_concept'', JStr ''UNKNOWN''), (''concepts'', JList (map JStr []))])"
    using assms
    apply (auto simp: normalize_item_def Let_def split: sum.splits if_splits)
     apply blast+
    done
  then show ?thesis
  proof (elim disjE exE conjE)
    fix t m matches ms cs
    assume a: "first_three matches = Inr ms" "concept_names ms = Inr cs"
      and e: "e = JObj [(''id'', JStr (q_id idx)), (''text'', JStr t),
                (''main_concept'', m), (''concepts'', JList (map JStr cs))]"
    have "length cs \<le> 3"
      using first_three_length [OF a(1)] concept_names_length [OF a(2)] by simp
    with e show ?thesis by blast
  next
    fix t
    assume e: "e = JObj [(''id'', JStr (q_id idx)), (''text'', JStr t),
                (''main_concept'', JStr ''UNKNOWN''), (''concepts'', JList (map JStr []))]"
    have "length ([] :: string list) \<le> 3" by simp
    with e show ?thesis by blast
  qed
qed

lemma normalize_items_shape:
  "normalize_items idx items = Inr entries \<Longrightarrow>
     \<forall>e\<in>set entries. \<exists>i t m cs.
        e = JObj [(''id'', JStr i), (''text'', JStr t),
                  (''main_concept'', m), (''concepts'', JList (map JStr cs))]
        \<and> length cs \<le> 3"
proof (induction items arbitrary: idx entries)
  case Nil
  then show ?case by simp
next
  case (Cons item items)
  from Cons.prems obtain e es where e: "normalize_item idx item = Inr e"
      and es: "normalize_items (Suc idx) items = Inr es" and entries: "entries = e # es"
    by (auto split: sum.splits)
  have "\<exists>i t m cs. e = JObj [(''id'', JStr i), (''text'', JStr t),
                  (''main_concept'', m), (''concepts'', JList (map JStr cs))]
        \<and> length cs \<le> 3"
    using normalize_item_shape [OF e] by blast
  then show ?case using Cons.IH [OF es] entries by simp
qed

text \<open>
  Claim C7, amended. Every entry that \<open>normalize_metadata\<close> returns has at most three
  concepts, and every concept of a document that \<open>parse_block\<close> returns is non-empty
  after trimming.
\<close>

theorem concepts_invariant:
  "(\<forall>entries. normalize_metadata raw = Inr entries \<longrightarrow>
      (\<forall>e\<in>set entries. \<exists>i t m cs.
          e = JObj [(''id'', JStr i), (''text'', JStr t),
                    (''main_concept'', m), (''concepts'', JList (map JStr cs))]
          \<and> length cs \<le> 3))
   \<and> (\<forall>d. parse_block block = Inr d \<longrightarrow>
        (\<forall>c\<in>set (d_concepts d). py_strip c \<noteq> []))"
proof (intro conjI allI impI)
  fix entries
  assume "normalize_metadata raw = Inr entries"
  then obtain items where "normalize_items 1 items = Inr entries"
    by (auto simp: normalize_metadata_def split: sum.splits)
  then show "\<forall>e\<in>set entries. \<exists>i t m cs.
          e = JObj [(''id'', JStr i), (''text'', JStr t),
                    (''main_concept'', m), (''concepts'', JList (map JStr cs))]
          \<and> length cs \<le> 3"
    by (rule normalize_items_shape)
next
  fix d
  assume "parse_block block = Inr d"
  then have "d_concepts d = [] \<or> (\<exists>s. d_concepts d = split_concepts s)"
    by (auto simp: parse_block_eq split: if_splits)
  moreover have "py_strip c \<noteq> []" if "c \<in> set (split_concepts s)" for c s
    using split_concepts_nonempty [OF that] by (rule conjunct1)
  ultimately show "\<forall>c\<in>set (d_concepts d). py_strip c \<noteq> []"
    by (metis empty_iff list.set(1))
qed

text \<open>
  Claim C7, as stated, fails on both paths: \<open>parse_block\<close> returns as many concepts as
  the header line lists, here four, and \<open>normalize_metadata\<close> turns a concept name of
  whitespace into an empty concept.
\<close>

theorem concepts_invariant_counterexample:
  "parse_block (''[ID: q_001]'' @ [LF] @ ''[MAIN_CONCEPT: A]'' @ [LF]
       @ ''[CONCEPTS: A; B; C; D]'' @ [LF, LF] @ ''What?'' @ [LF, LF] @ ''---'') =
     Inr \<lparr>d_id = ''q_001'', d_main_concept = ''A'', d_concepts = [''A'', ''B'', ''C'', ''D''],
          d_text = ''What?''\<rparr>
   \<and> length [''A'', ''B'', ''C'', ''D''] = 4
   \<and> normalize_metadata (dataset_json
        [\<lparr>i_question = ''Q'', i_matches = [\<lparr>m_concept = '' '', m_score = 1\<rparr>]\<rparr>]) =
      Inr [JObj [(''id'', JStr ''q_001''), (''text'', JStr ''Q''),
                 (''main_concept'', JStr '' ''), (''concepts'', JList [JStr ''''])]]
   \<and> py_strip '''' = ''''"
  by code_simp

theorem concepts_invariant_witness:
  "normalize_metadata (dataset_json
      [\<lparr>i_question = ''Q'', i_matches =
          [\<lparr>m_concept = ''A'', m_score = 4\<rparr>, \<lparr>m_concept = ''B'', m_score = 3\<rparr>,
           \<lparr>m_concept = ''C'', m_score = 2\<rparr>, \<lparr>m_concept = ''D'', m_score = 1\<rparr>]\<rparr>]) =
     Inr [JObj [(''id'', JStr ''q_001''), (''text'', JStr ''Q''), (''main_concept'', JStr ''A''),
                (''concepts'', JList (map JStr [''A'', ''B'', ''C'']))]]
   \<and> length [''A'', ''B'', ''C''] \<le> (3::nat)
   \<and> parse_block (''[ID: q_001]'' @ [LF] @ ''[MAIN_CONCEPT: A]'' @ [LF]
       @ ''[CONCEPTS:  A ;; B ]'' @ [LF, LF] @ ''What?'' @ [LF, LF] @ ''---'') =
     Inr \<lparr>d_id = ''q_001'', d_main_concept = ''A'', d_concepts = [''A'', ''B''],
          d_text = ''What?''\<rparr>
   \<and> py_strip ''A'' \<noteq> [] \<and> py_strip ''B'' \<noteq> []"
proof -
  let ?raw = "dataset_json
      [\<lparr>i_question = ''Q'', i_matches =
          [\<lparr>m_concept = ''A'', m_score = 4\<rparr>, \<lparr>m_concept = ''B'', m_score = 3\<rparr>,
           \<lparr>m_concept = ''C'', m_score = 2\<rparr>, \<lparr>m_concept = ''D'', m_score = 1\<rparr>]\<rparr>]"
  let ?block = "''[ID: q_001]'' @ [LF] @ ''[MAIN_CONCEPT: A]'' @ [LF]
       @ ''[CONCEPTS:  A ;; B ]'' @ [LF, LF] @ ''What?'' @ [LF, LF] @ ''---''"
  have h1: "normalize_metadata ?raw =
     Inr [JObj [(''id'', JStr ''q_001''), (''text'', JStr ''Q''), (''main_concept'', JStr ''A''),
                (''concepts'', JList (map JStr [''A'', ''B'', ''C'']))]]"
    by code_simp
  have h2: "parse_block ?block =
     Inr \<lparr>d_id = ''q_001'', d_main_concept = ''A'', d_concepts = [''A'', ''B''],
          d_text = ''What?''\<rparr>"
    by code_simp
  have h3: "length [''A'', ''B'', ''C''] \<le> (3::nat)" by simp
  have h4: "py_strip ''A'' \<noteq> [] \<and> py_strip ''B'' \<noteq> []"
    using concepts_invariant [of ?raw ?block] h2 by simp
  show ?thesis using h1 h2 h3 h4 by blast
qed

section \<open>Encoding a document and decoding it again\<close>

lemma is_linebreak_LF: "is_linebreak LF"
  by (simp add: is_linebreak_def LF_def)

lemma LF_not_CR: "LF \<noteq> CR"
  by (simp add: LF_def CR_def)

lemma py_splitlines_LF: "py_splitlines (LF # rest) = [] # py_splitlines rest"
  by (cases rest) (simp_all add: is_linebreak_LF LF_not_CR)

lemma py_splitlines_line:
  "\<forall>c\<in>set l. \<not> is_linebreak c \<Longrightarrow> py_splitlines (l @ LF # rest) = l # py_splitlines rest"
proof (induction l)
  case Nil
  show ?case by (simp only: append_Nil py_splitlines_LF)
next
  case (Cons c l)
  then have "py_splitlines (l @ LF # rest) = l # py_splitlines rest" by simp
  moreover have "\<not> is_linebreak c" using Cons.prems by simp
  ultimately show ?case by simp
qed

lemma py_splitlines_text:
  "\<forall>c\<in>set t. is_linebreak c \<longrightarrow> c = LF \<Longrightarrow> t \<noteq> [] \<Longrightarrow> \<not> is_linebreak (last t) \<Longrightarrow>
     py_splitlines (t @ LF # rest) = py_splitlines t @ py_splitlines rest"
proof (induction t)
  case Nil
  then show ?case by simp
next
  case (Cons c t)
  show ?case
  proof (cases "t = []")
    case True
    then have nb: "\<not> is_linebreak c" using Cons.prems(3) by simp
    then have "py_splitlines ([c] @ LF # rest) = [c] # py_splitlines rest"
      by (intro py_splitlines_line) simp
    moreover have "py_splitlines [c] = [[c]]" using nb by simp
    ultimately show ?thesis using True by simp
  next
    case False
    have ih: "py_splitlines (t @ LF # rest) = py_splitlines t @ py_splitlines rest"
      using Cons False by simp
    have ne: "py_splitlines t \<noteq> []" using False by (simp add: py_splitlines_Nil_iff)
    show ?thesis
    proof (cases "is_linebreak c")
      case True
      then have c: "c = LF" using Cons.prems(1) by simp
      have "py_splitlines (LF # t) = [] # py_splitlines t" by (rule py_splitlines_LF)
      moreover have "py_splitlines (LF # t @ LF # rest) = [] # py_splitlines (t @ LF # rest)"
        by (rule py_splitlines_LF)
      ultimately show ?thesis using ih c by simp
    next
      case nb: False
      obtain l ls where ls: "py_splitlines t = l # ls" using ne by (cases "py_splitlines t") auto
      show ?thesis using nb ih ls by simp
    qed
  qed
qed

lemma py_join_Cons: "ls \<noteq> [] \<Longrightarrow> py_join sep (l # ls) = l @ sep @ py_join sep ls"
  by (cases ls) simp_all

lemma py_join_snoc: "ls \<noteq> [] \<Longrightarrow> py_join sep (ls @ [l]) = py_join sep ls @ sep @ l"
  by (induction sep ls rule: py_join.induct) simp_all

lemma py_join_splitlines:
  "\<forall>c\<in>set t. is_linebreak c \<longrightarrow> c = LF \<Longrightarrow> t \<noteq> [] \<Longrightarrow> \<not> is_linebreak (last t) \<Longrightarrow>
     py_join [LF] (py_splitlines t) = t"
proof (induction t)
  case Nil
  then show ?case by simp
next
  case (Cons c t)
  show ?case
  proof (cases "t = []")
    case True
    then have "\<not> is_linebreak c" using Cons.prems(3) by simp
    then show ?thesis using True by simp
  next
    case False
    have ih: "py_join [LF] (py_splitlines t) = t" using Cons False by simp
    have ne: "py_splitlines t \<noteq> []" using False by (simp add: py_splitlines_Nil_iff)
    show ?thesis
    proof (cases "is_linebreak c")
      case True
      then have c: "c = LF" using Cons.prems(1) by simp
      have "py_splitlines (LF # t) = [] # py_splitlines t" by (rule py_splitlines_LF)
      then show ?thesis using ih c ne by (simp add: py_join_Cons)
    next
      case nb: False
      obtain l ls where ls: "py_splitlines t = l # ls" using ne by (cases "py_splitlines t") auto
      have "py_join [LF] ((c # l) # ls) = c # py_join [LF] (l # ls)"
        by (cases ls) simp_all
      then show ?thesis using nb ih ls by simp
    qed
  qed
qed

lemma py_split_part:
  "\<forall>x\<in>set l. x \<noteq> sep \<Longrightarrow> py_split sep (l @ sep # rest) = l # py_split sep rest"
  by (induction l) simp_all

lemma py_split_whole: "\<forall>x\<in>set l. x \<noteq> sep \<Longrightarrow> py_split sep l = [l]"
  by (induction l) simp_all

lemma py_strip_space_Cons: "is_space c \<Longrightarrow> py_strip (c # s) = py_strip s"
  by (simp add: py_strip_def py_lstrip_def)

lemma py_rstrip_chars_bracket:
  assumes "s = [] \<or> last s \<noteq> CHR '']''"
  shows "py_rstrip_chars '']'' (CHR '' '' # s @ '']'') = CHR '' '' # s"
proof -
  have "dropWhile (\<lambda>c. c \<in> set '']'') (rev s @ '' '') = rev s @ '' ''"
  proof (cases s rule: rev_cases)
    case Nil
    then show ?thesis by simp
  next
    case (snoc ys y)
    then have "y \<noteq> CHR '']''" using assms by simp
    then show ?thesis using snoc by simp
  qed
  then show ?thesis by (simp add: py_rstrip_chars_def)
qed

lemma extract_field_header:
  assumes "s = [] \<or> last s \<noteq> CHR '']''"
  shows "extract_field (''['' @ label @ '': '' @ s @ '']'') label dflt = py_strip s"
proof -
  have "py_startswith (''['' @ label @ '': '' @ s @ '']'') (''['' @ label @ '':'')"
    by (simp add: py_startswith_def)
  moreover have "drop (length (''['' @ label @ '':'')) (''['' @ label @ '': '' @ s @ '']'')
      = CHR '' '' # s @ '']''"
    by simp
  moreover have "is_space (CHR '' '')" by (simp add: is_space_def)
  ultimately show ?thesis
    unfolding extract_field_def Let_def
    by (simp only: if_True py_rstrip_chars_bracket [OF assms] py_strip_space_Cons)
qed

lemma split_concepts_part:
  assumes "\<forall>x\<in>set l. x \<noteq> CHR '';''"
  shows "split_concepts (l @ CHR '';'' # rest) =
      (if py_strip l \<noteq> [] then [py_strip l] else []) @ split_concepts rest"
  by (simp add: split_concepts_def py_split_part [OF assms])

lemma split_concepts_whole:
  assumes "\<forall>x\<in>set l. x \<noteq> CHR '';''"
  shows "split_concepts l = (if py_strip l \<noteq> [] then [py_strip l] else [])"
  by (simp add: split_concepts_def py_split_whole [OF assms])

lemma split_concepts_join:
  assumes "cs \<noteq> []"
    and "\<forall>c\<in>set cs. c \<noteq> [] \<and> py_strip c = c \<and> (\<forall>x\<in>set c. x \<noteq> CHR '';'')"
  shows "split_concepts (py_join ''; '' cs) = cs
       \<and> split_concepts (CHR '' '' # py_join ''; '' cs) = cs"
  using assms
proof (induction "''; ''" cs rule: py_join.induct)
  case 1
  then show ?case by simp
next
  case (2 x)
  have sp: "is_space (CHR '' '')" by (simp add: is_space_def)
  have a: "\<forall>c\<in>set x. c \<noteq> CHR '';''" using 2 by simp
  then have b: "\<forall>c\<in>set (CHR '' '' # x). c \<noteq> CHR '';''" by simp
  have st: "py_strip x = x" "x \<noteq> []" using 2 by simp_all
  have "split_concepts x = [x]"
    using split_concepts_whole [OF a] st by simp
  moreover have "split_concepts (CHR '' '' # x) = [x]"
    using split_concepts_whole [OF b] st py_strip_space_Cons [OF sp, of x] by simp
  ultimately show ?case by simp
next
  case (3 x y ys)
  have sp: "is_space (CHR '' '')" by (simp add: is_space_def)
  have a: "\<forall>c\<in>set x. c \<noteq> CHR '';''" using 3 by simp
  then have b: "\<forall>c\<in>set (CHR '' '' # x). c \<noteq> CHR '';''" by simp
  have st: "py_strip x = x" "x \<noteq> []" using 3 by simp_all
  have ih: "split_concepts (CHR '' '' # py_join ''; '' (y # ys)) = y # ys"
    using 3 by simp
  have j: "py_join ''; '' (x # y # ys) = x @ CHR '';'' # (CHR '' '' # py_join ''; '' (y # ys))"
    by simp
  have 1: "split_concepts (py_join ''; '' (x # y # ys)) = x # y # ys"
    unfolding j using split_concepts_part [OF a] st ih by simp
  have j': "CHR '' '' # py_join ''; '' (x # y # ys) =
      (CHR '' '' # x) @ CHR '';'' # (CHR '' '' # py_join ''; '' (y # ys))"
    by simp
  have 2: "split_concepts (CHR '' '' # py_join ''; '' (x # y # ys)) = x # y # ys"
    unfolding j' using split_concepts_part [OF b] st ih py_strip_space_Cons [OF sp, of x]
    by simp
  show ?case using 1 2 by simp
qed

lemma parse_block_lines:
  assumes L: "py_splitlines raw = [h1, h2, h3, []] @ tls @ [[], ''---'']"
    and h: "h1 \<noteq> ''---''" "h2 \<noteq> ''---''" "h3 \<noteq> ''---''"
    and t: "''---'' \<notin> set tls"
    and ne: "py_strip (py_join [LF] (tls @ [[]])) \<noteq> []"
  shows "parse_block raw =
     Inr \<lparr>d_id = extract_field h1 ''ID'' ''UNKNOWN_ID'',
          d_main_concept = extract_field h2 ''MAIN_CONCEPT'' ''UNKNOWN'',
          d_concepts = split_concepts (extract_field h3 ''CONCEPTS'' ''''),
          d_text = py_strip (py_join [LF] (tls @ [[]]))\<rparr>"
proof -
  have all: "\<forall>l\<in>set ([h1, h2, h3, []] @ tls @ [[]]). l \<noteq> ''---''"
    using h t by auto
  have "takeWhile (\<lambda>l. l \<noteq> ''---'') (([h1, h2, h3, []] @ tls @ [[]]) @ [''---''])
      = [h1, h2, h3, []] @ tls @ [[]]"
    using all by (subst takeWhile_append2) auto
  then have tw: "takeWhile (\<lambda>l. l \<noteq> ''---'') (py_splitlines raw) = [h1, h2, h3, []] @ tls @ [[]]"
    unfolding L by simp
  have q: "question_lines (py_splitlines raw) = tls @ [[]]"
    unfolding question_lines_eq tw by simp
  have len: "py_splitlines raw \<noteq> []" "1 < length (py_splitlines raw)"
      "2 < length (py_splitlines raw)"
    unfolding L by simp_all
  have nth: "py_splitlines raw ! 0 = h1" "py_splitlines raw ! 1 = h2" "py_splitlines raw ! 2 = h3"
    unfolding L by simp_all
  show ?thesis
    unfolding parse_block_eq using len nth q ne by simp
qed

lemma py_strip_snoc_space:
  assumes "is_space c" and "py_strip s = s" and "s \<noteq> []"
  shows "py_strip (s @ [c]) = s"
proof -
  have e: "\<not> is_space (hd s)" "\<not> is_space (last s)"
    using py_strip_ends [of s] assms(2,3) by simp_all
  have "dropWhile is_space (s @ [c]) = s @ [c]"
    using assms(3) e(1) by (cases s) simp_all
  moreover have "dropWhile is_space (rev s) = rev s"
    using assms(3) e(2) by (cases s rule: rev_cases) simp_all
  ultimately show ?thesis
    using assms(1) by (simp add: py_strip_def py_lstrip_def py_rstrip_def)
qed

lemma is_linebreak_is_space: "is_linebreak c \<Longrightarrow> is_space c"
  by (auto simp: is_linebreak_def is_space_def)

lemma block_lines:
  assumes h: "\<forall>c\<in>set h1. \<not> is_linebreak c" "\<forall>c\<in>set h2. \<not> is_linebreak c"
      "\<forall>c\<in>set h3. \<not> is_linebreak c"
    and t: "\<forall>c\<in>set t. is_linebreak c \<longrightarrow> c = LF" "t \<noteq> []" "\<not> is_linebreak (last t)"
    and tail: "py_splitlines (LF # tail) = [[], ''---'']"
  shows "py_splitlines (h1 @ LF # h2 @ LF # h3 @ LF # LF # t @ LF # LF # tail) =
      [h1, h2, h3, []] @ py_splitlines t @ [[], ''---'']"
proof -
  have "py_splitlines (t @ LF # LF # tail) = py_splitlines t @ [[], ''---'']"
    using py_splitlines_text [OF t, of "LF # tail"] tail by simp
  then have "py_splitlines (LF # t @ LF # LF # tail) = [] # py_splitlines t @ [[], ''---'']"
    by (simp only: py_splitlines_LF)
  then have "py_splitlines (h3 @ LF # LF # t @ LF # LF # tail) =
      h3 # [] # py_splitlines t @ [[], ''---'']"
    by (simp only: py_splitlines_line [OF h(3)])
  then have "py_splitlines (h2 @ LF # h3 @ LF # LF # t @ LF # LF # tail) =
      h2 # h3 # [] # py_splitlines t @ [[], ''---'']"
    by (simp only: py_splitlines_line [OF h(2)])
  then have "py_splitlines (h1 @ LF # h2 @ LF # h3 @ LF # LF # t @ LF # LF # tail) =
      h1 # h2 # h3 # [] # py_splitlines t @ [[], ''---'']"
    by (simp only: py_splitlines_line [OF h(1)])
  then show ?thesis by simp
qed

lemma tail_lines:
  "py_splitlines (LF # ''---'') = [[], ''---'']"
  "py_splitlines (LF # ''---'' @ [LF]) = [[], ''---'']"
  by (simp_all add: is_linebreak_def LF_def CR_def)

lemma decode_block:
  assumes id_trim: "py_strip i = i"
    and id_line: "\<forall>c\<in>set i. \<not> is_linebreak c"
    and id_end: "i = [] \<or> last i \<noteq> CHR '']''"
    and mc_trim: "py_strip m = m"
    and mc_line: "\<forall>c\<in>set m. \<not> is_linebreak c"
    and mc_end: "m = [] \<or> last m \<noteq> CHR '']''"
    and cs_ok: "\<forall>c\<in>set cs. c \<noteq> [] \<and> py_strip c = c
                  \<and> (\<forall>x\<in>set c. x \<noteq> CHR '';'' \<and> \<not> is_linebreak x)"
    and cs_end: "cs = [] \<or> last (last cs) \<noteq> CHR '']''"
    and tx_ne: "t \<noteq> []"
    and tx_trim: "py_strip t = t"
    and tx_lf: "\<forall>c\<in>set t. is_linebreak c \<longrightarrow> c = LF"
    and tx_sep: "''---'' \<notin> set (py_splitlines t)"
    and tail: "py_splitlines (LF # tail) = [[], ''---'']"
  shows "parse_block ((''[ID: '' @ i @ '']'') @ LF # (''[MAIN_CONCEPT: '' @ m @ '']'') @ LF
            # (''[CONCEPTS: '' @ py_join ''; '' cs @ '']'') @ LF # LF # t @ LF # LF # tail) =
      Inr \<lparr>d_id = i, d_main_concept = m, d_concepts = cs, d_text = t\<rparr>"
proof -
  let ?C = "py_join ''; '' cs"
  let ?h1 = "''[ID: '' @ i @ '']''"
  let ?h2 = "''[MAIN_CONCEPT: '' @ m @ '']''"
  let ?h3 = "''[CONCEPTS: '' @ ?C @ '']''"
  let ?TL = "py_splitlines t"
  have nonempty: "\<forall>c\<in>set cs. c \<noteq> []" using cs_ok by blast
  have C_line: "\<forall>c\<in>set ?C. \<not> is_linebreak c"
  proof
    fix c assume "c \<in> set ?C"
    then have "c \<in> set ''; '' \<or> (\<exists>l\<in>set cs. c \<in> set l)"
      using set_py_join [of "''; ''" cs] by auto
    then show "\<not> is_linebreak c"
      using cs_ok by (auto simp: is_linebreak_def)
  qed
  have C_shape: "?C = [] \<or> (?C \<noteq> [] \<and> \<not> is_space (hd ?C) \<and> \<not> is_space (last ?C)
      \<and> last ?C \<noteq> CHR '']'')"
  proof (cases "cs = []")
    case True
    then show ?thesis by simp
  next
    case False
    have j: "?C \<noteq> [] \<and> hd ?C = hd (hd cs) \<and> last ?C = last (last cs)"
      using py_join_nonempty [OF False nonempty] .
    have "hd cs \<in> set cs" "last cs \<in> set cs" using False by simp_all
    then have "py_strip (hd cs) = hd cs" "hd cs \<noteq> []" "py_strip (last cs) = last cs"
        "last cs \<noteq> []"
      using cs_ok by blast+
    then have "\<not> is_space (hd (hd cs))" "\<not> is_space (last (last cs))"
      using py_strip_ends(1) [of "hd cs"] py_strip_ends(2) [of "last cs"] by simp_all
    then show ?thesis using j cs_end False by simp
  qed
  have C_end: "?C = [] \<or> last ?C \<noteq> CHR '']''" using C_shape by blast
  have C_trim: "py_strip ?C = ?C"
  proof (cases "?C = []")
    case True
    have "py_strip [] = []" by (simp add: py_strip_def py_lstrip_def py_rstrip_def)
    then show ?thesis unfolding True .
  next
    case False
    then show ?thesis using C_shape by (intro py_strip_id) simp_all
  qed
  have C_split: "split_concepts ?C = cs"
  proof (cases "cs = []")
    case True
    then show ?thesis by (simp add: split_concepts_Nil)
  next
    case False
    have "\<forall>c\<in>set cs. c \<noteq> [] \<and> py_strip c = c \<and> (\<forall>x\<in>set c. x \<noteq> CHR '';'')"
      using cs_ok by blast
    then show ?thesis using split_concepts_join [OF False] by blast
  qed
  have t_ends: "\<not> is_space (last t)"
    using py_strip_ends(2) [of t] tx_trim tx_ne by simp
  then have t_last: "\<not> is_linebreak (last t)"
    using is_linebreak_is_space by blast
  have h1_line: "\<forall>c\<in>set ?h1. \<not> is_linebreak c"
    using id_line by (auto simp: is_linebreak_def)
  have h2_line: "\<forall>c\<in>set ?h2. \<not> is_linebreak c"
    using mc_line by (auto simp: is_linebreak_def)
  have h3_line: "\<forall>c\<in>set ?h3. \<not> is_linebreak c"
    using C_line by (auto simp: is_linebreak_def)
  have L: "py_splitlines (?h1 @ LF # ?h2 @ LF # ?h3 @ LF # LF # t @ LF # LF # tail) =
      [?h1, ?h2, ?h3, []] @ ?TL @ [[], ''---'']"
    using h1_line h2_line h3_line tx_lf tx_ne t_last tail by (rule block_lines)
  have TL_ne: "?TL \<noteq> []" using tx_ne by (simp add: py_splitlines_Nil_iff)
  have "py_join [LF] (?TL @ [[]]) = py_join [LF] ?TL @ [LF]"
    using py_join_snoc [OF TL_ne, of "[LF]" "[]"] by simp
  also have "\<dots> = t @ [LF]"
    using py_join_splitlines [OF tx_lf tx_ne t_last] by simp
  finally have body: "py_join [LF] (?TL @ [[]]) = t @ [LF]" .
  have dtext: "py_strip (py_join [LF] (?TL @ [[]])) = t"
    unfolding body using is_space_LF tx_trim tx_ne by (rule py_strip_snoc_space)
  have hne: "?h1 \<noteq> ''---''" "?h2 \<noteq> ''---''" "?h3 \<noteq> ''---''" by simp_all
  have ne: "py_strip (py_join [LF] (?TL @ [[]])) \<noteq> []" using dtext tx_ne by simp
  have e1: "extract_field ?h1 ''ID'' ''UNKNOWN_ID'' = i"
    using extract_field_header [OF id_end, of "''ID''" "''UNKNOWN_ID''"] id_trim by simp
  have e2: "extract_field ?h2 ''MAIN_CONCEPT'' ''UNKNOWN'' = m"
    using extract_field_header [OF mc_end, of "''MAIN_CONCEPT''" "''UNKNOWN''"] mc_trim by simp
  have e3: "extract_field ?h3 ''CONCEPTS'' '''' = ?C"
    using extract_field_header [OF C_end, of "''CONCEPTS''" "''''"] C_trim by simp
  show ?thesis
    using parse_block_lines [OF L hne tx_sep ne] e1 e2 e3 C_split dtext by simp
qed

text \<open>
  Claim C1, amended. Take a document whose id and main concept are trimmed, hold no line
  boundary and do not end with \<open>]\<close>; whose concepts are non-empty and trimmed, hold
  neither \<open>;\<close> nor a line boundary, the last of them not ending with \<open>]\<close>; and whose
  text is non-empty and trimmed, has the line feed as its only line boundary and has no
  line equal to \<open>---\<close>. Then decoding its block gives the document back, in all four
  fields; the same holds for the text \<open>build_corpus_text\<close> writes for the document
  alone, which is the block followed by one line feed.
\<close>

theorem round_trip:
  assumes id_trim: "py_strip (d_id d) = d_id d"
    and id_line: "\<forall>c\<in>set (d_id d). \<not> is_linebreak c"
    and id_end: "d_id d = [] \<or> last (d_id d) \<noteq> CHR '']''"
    and mc_trim: "py_strip (d_main_concept d) = d_main_concept d"
    and mc_line: "\<forall>c\<in>set (d_main_concept d). \<not> is_linebreak c"
    and mc_end: "d_main_concept d = [] \<or> last (d_main_concept d) \<noteq> CHR '']''"
    and cs_ok: "\<forall>c\<in>set (d_concepts d). c \<noteq> [] \<and> py_strip c = c
                  \<and> (\<forall>x\<in>set c. x \<noteq> CHR '';'' \<and> \<not> is_linebreak x)"
    and cs_end: "d_concepts d = [] \<or> last (last (d_concepts d)) \<noteq> CHR '']''"
    and tx_ne: "d_text d \<noteq> []"
    and tx_trim: "py_strip (d_text d) = d_text d"
    and tx_lf: "\<forall>c\<in>set (d_text d). is_linebreak c \<longrightarrow> c = LF"
    and tx_sep: "''---'' \<notin> set (py_splitlines (d_text d))"
  shows "parse_block (encode_document d) = Inr d
       \<and> build_corpus_text [entry_json d] = Inr (encode_document d @ [LF])
       \<and> parse_block (encode_document d @ [LF]) = Inr d"
proof -
  have f: "filter (\<lambda>c. c \<noteq> []) (d_concepts d) = d_concepts d"
    using cs_ok by (simp add: filter_id_conv)
  have enc: "encode_document d =
      (''[ID: '' @ d_id d @ '']'') @ LF # (''[MAIN_CONCEPT: '' @ d_main_concept d @ '']'') @ LF
        # (''[CONCEPTS: '' @ py_join ''; '' (d_concepts d) @ '']'') @ LF # LF
        # d_text d @ LF # LF # ''---''"
    by (simp add: encode_document_def id_trim mc_trim tx_trim f)
  have enc': "encode_document d @ [LF] =
      (''[ID: '' @ d_id d @ '']'') @ LF # (''[MAIN_CONCEPT: '' @ d_main_concept d @ '']'') @ LF
        # (''[CONCEPTS: '' @ py_join ''; '' (d_concepts d) @ '']'') @ LF # LF
        # d_text d @ LF # LF # (''---'' @ [LF])"
    unfolding enc by simp
  have rec: "\<lparr>d_id = d_id d, d_main_concept = d_main_concept d, d_concepts = d_concepts d,
      d_text = d_text d\<rparr> = d"
    by simp
  have 1: "parse_block (encode_document d) = Inr d"
    unfolding enc
    using decode_block [OF id_trim id_line id_end mc_trim mc_line mc_end cs_ok cs_end
        tx_ne tx_trim tx_lf tx_sep tail_lines(1)] rec
    by simp
  have 3: "parse_block (encode_document d @ [LF]) = Inr d"
    unfolding enc'
    using decode_block [OF id_trim id_line id_end mc_trim mc_line mc_end cs_ok cs_end
        tx_ne tx_trim tx_lf tx_sep tail_lines(2)] rec
    by simp
  have sp: "\<not> is_space (CHR ''['')" "\<not> is_space (CHR ''-'')"
    by (simp_all add: is_space_def)
  have "py_strip (encode_document d) = encode_document d"
    using encode_document_shape [of d] sp by (intro py_strip_id) simp_all
  then have 2: "build_corpus_text [entry_json d] = Inr (encode_document d @ [LF])"
    by (simp add: build_corpus_text_def build_block_entry)
  show ?thesis using 1 2 3 by blast
qed

text \<open>
  Claim C1, as stated, fails: a document with the empty text has no field with a line
  \<open>---\<close> and no leading or trailing whitespace, but its block decodes to a document whose
  text is the whole block.
\<close>

theorem round_trip_counterexample:
  "py_strip ''q_001'' = ''q_001'' \<and> py_strip ''A'' = ''A'' \<and> py_strip '''' = ''''
   \<and> ''---'' \<notin> set (py_splitlines '''')
   \<and> parse_block (encode_document
        \<lparr>d_id = ''q_001'', d_main_concept = ''A'', d_concepts = [''A''], d_text = ''''\<rparr>) =
      Inr \<lparr>d_id = ''q_001'', d_main_concept = ''A'', d_concepts = [''A''],
           d_text = ''[ID: q_001]'' @ [LF] @ ''[MAIN_CONCEPT: A]'' @ [LF] @ ''[CONCEPTS: A]''
             @ [LF, LF, LF, LF] @ ''---''\<rparr>
   \<and> parse_block (encode_document
        \<lparr>d_id = ''q_001'', d_main_concept = ''A'', d_concepts = [''A''], d_text = ''''\<rparr>) \<noteq>
      Inr \<lparr>d_id = ''q_001'', d_main_concept = ''A'', d_concepts = [''A''], d_text = ''''\<rparr>"
  by code_simp

text \<open>
  The other conditions of the amended claim are needed as well: an id ending with
  \<open>]\<close> loses it, a concept with \<open>;\<close> is cut in two and an empty concept is dropped, a
  line feed in the main concept shifts the header lines, and a carriage return in the
  text comes back as a line feed.
\<close>

lemma round_trip_other_failures:
  "parse_block (encode_document
      \<lparr>d_id = ''q[1]'', d_main_concept = ''A'', d_concepts = [''A''], d_text = ''What?''\<rparr>) =
    Inr \<lparr>d_id = ''q[1'', d_main_concept = ''A'', d_concepts = [''A''], d_text = ''What?''\<rparr>"
  "parse_block (encode_document
      \<lparr>d_id = ''q_001'', d_main_concept = ''A'', d_concepts = [''A;B'', ''''], d_text = ''What?''\<rparr>) =
    Inr \<lparr>d_id = ''q_001'', d_main_concept = ''A'', d_concepts = [''A'', ''B''], d_text = ''What?''\<rparr>"
  "parse_block (encode_document
      \<lparr>d_id = ''q_001'', d_main_concept = ''A'' @ [LF] @ ''B'', d_concepts = [''A''],
       d_text = ''What?''\<rparr>) =
    Inr \<lparr>d_id = ''q_001'', d_main_concept = ''A'', d_concepts = [], d_text = ''What?''\<rparr>"
  "parse_block (encode_document
      \<lparr>d_id = ''q_001'', d_main_concept = ''A'', d_concepts = [''A''],
       d_text = ''one'' @ [CR] @ ''two''\<rparr>) =
    Inr \<lparr>d_id = ''q_001'', d_main_concept = ''A'', d_concepts = [''A''],
         d_text = ''one'' @ [LF] @ ''two''\<rparr>"
  by code_simp+

theorem round_trip_witness:
  "py_strip ''q_001'' = ''q_001''
   \<and> py_strip ''Risk [types]: A'' = ''Risk [types]: A''
   \<and> py_strip (''Name two risks.'' @ [LF] @ ''  - explain each'') =
        ''Name two risks.'' @ [LF] @ ''  - explain each''
   \<and> ''---'' \<notin> set (py_splitlines (''Name two risks.'' @ [LF] @ ''  - explain each''))
   \<and> parse_block (encode_document
        \<lparr>d_id = ''q_001'', d_main_concept = ''Risk [types]: A'',
         d_concepts = [''Risk [types]: A'', ''B c''],
         d_text = ''Name two risks.'' @ [LF] @ ''  - explain each''\<rparr>) =
      Inr \<lparr>d_id = ''q_001'', d_main_concept = ''Risk [types]: A'',
           d_concepts = [''Risk [types]: A'', ''B c''],
           d_text = ''Name two risks.'' @ [LF] @ ''  - explain each''\<rparr>
   \<and> parse_block (encode_document
        \<lparr>d_id = ''q_001'', d_main_concept = ''Risk [types]: A'',
         d_concepts = [''Risk [types]: A'', ''B c''],
         d_text = ''Name two risks.'' @ [LF] @ ''  - explain each''\<rparr> @ [LF]) =
      Inr \<lparr>d_id = ''q_001'', d_main_concept = ''Risk [types]: A'',
           d_concepts = [''Risk [types]: A'', ''B c''],
           d_text = ''Name two risks.'' @ [LF] @ ''  - explain each''\<rparr>"
proof -
  let ?t = "''Name two risks.'' @ [LF] @ ''  - explain each''"
  let ?d = "\<lparr>d_id = ''q_001'', d_main_concept = ''Risk [types]: A'',
         d_concepts = [''Risk [types]: A'', ''B c''], d_text = ?t\<rparr>"
  have a1: "py_strip (d_id ?d) = d_id ?d" by code_simp
  have a2: "\<forall>c\<in>set (d_id ?d). \<not> is_linebreak c" by (simp add: is_linebreak_def)
  have a3: "d_id ?d = [] \<or> last (d_id ?d) \<noteq> CHR '']''" by simp
  have b1: "py_strip (d_main_concept ?d) = d_main_concept ?d" by code_simp
  have b2: "\<forall>c\<in>set (d_main_concept ?d). \<not> is_linebreak c" by (simp add: is_linebreak_def)
  have b3: "d_main_concept ?d = [] \<or> last (d_main_concept ?d) \<noteq> CHR '']''" by simp
  have s1: "py_strip ''Risk [types]: A'' = ''Risk [types]: A''" by code_simp
  have s2: "py_strip ''B c'' = ''B c''" by code_simp
  have c1: "\<forall>c\<in>set (d_concepts ?d). c \<noteq> [] \<and> py_strip c = c
                  \<and> (\<forall>x\<in>set c. x \<noteq> CHR '';'' \<and> \<not> is_linebreak x)"
    using s1 s2 by (simp add: is_linebreak_def)
  have c2: "d_concepts ?d = [] \<or> last (last (d_concepts ?d)) \<noteq> CHR '']''" by simp
  have t1: "d_text ?d \<noteq> []" by simp
  have st: "py_strip ?t = ?t" by code_simp
  have t2: "py_strip (d_text ?d) = d_text ?d" using st by simp
  have t3: "\<forall>c\<in>set (d_text ?d). is_linebreak c \<longrightarrow> c = LF"
    by (simp add: is_linebreak_def LF_def)
  have sl: "''---'' \<notin> set (py_splitlines ?t)" by code_simp
  have t4: "''---'' \<notin> set (py_splitlines (d_text ?d))" using sl by simp
  have r: "parse_block (encode_document ?d) = Inr ?d
       \<and> build_corpus_text [entry_json ?d] = Inr (encode_document ?d @ [LF])
       \<and> parse_block (encode_document ?d @ [LF]) = Inr ?d"
    using a1 a2 a3 b1 b2 b3 c1 c2 t1 t2 t3 t4 by (rule round_trip)
  show ?thesis using r s1 a1 st sl by simp
qed

end
